theory Spec2Isabelle
  imports Main "HOL-Library.Multiset"
begin

section \<open>Data model\<close>

text \<open>
  The script \<^verbatim>\<open>survey1_analysis_script.py\<close> turns free-text survey cells into ranked
  frequency tables. Python exceptions are values of \<open>error\<close>; a function that can raise
  returns \<open>error + 'a\<close> with \<open>Inl\<close> for the exception.
  \<^item> \<open>KeyError\<close>: a dict or row lookup \<^verbatim>\<open>d[k]\<close> with an absent key;
  \<^item> \<open>CapabilityError\<close>: whatever the injected language model \<^verbatim>\<open>nlp\<close> raises;
  \<^item> \<open>ValueError\<close>: \<^verbatim>\<open>pd.DataFrame\<close> given columns of different lengths;
  \<^item> \<open>OSError\<close>: \<^verbatim>\<open>to_csv\<close> on a file that cannot be written.
\<close>

datatype error = KeyError string | CapabilityError string | ValueError | OSError string

text \<open>
  A \<^verbatim>\<open>collections.Counter\<close> is a dict, and a Python dict keeps its keys in insertion
  order, which \<^verbatim>\<open>counter.items()\<close> exposes and the ranking depends on. A counter is
  therefore an association list in insertion order; in a dict the keys are distinct
  (\<open>wf_counter\<close>). Counts are Python integers.
\<close>

type_synonym counter = "(string \<times> int) list"

definition wf_counter :: "counter \<Rightarrow> bool" where
  "wf_counter c = distinct (map fst c)"

text \<open>\<^verbatim>\<open>d[k] = v\<close>: an existing key keeps its position, a new key goes to the end.\<close>

fun dict_set :: "('k \<times> 'v) list \<Rightarrow> 'k \<Rightarrow> 'v \<Rightarrow> ('k \<times> 'v) list" where
  "dict_set [] k v = [(k, v)]"
| "dict_set ((k', v') # kvs) k v =
     (if k' = k then (k, v) # kvs else (k', v') # dict_set kvs k v)"

text \<open>\<^verbatim>\<open>counter.get(elem, 0)\<close>, which is also what \<^verbatim>\<open>counter[elem]\<close> reads.\<close>

definition counter_get :: "counter \<Rightarrow> string \<Rightarrow> int" where
  "counter_get c elem = (case map_of c elem of None \<Rightarrow> 0 | Some n \<Rightarrow> n)"

text \<open>
  \<^verbatim>\<open>Counter.update(iterable)\<close> for a list of tokens:
  \<^verbatim>\<open>for elem in iterable: self[elem] = self.get(elem, 0) + 1\<close>.
\<close>

fun counter_update_tokens :: "counter \<Rightarrow> string list \<Rightarrow> counter" where
  "counter_update_tokens c [] = c"
| "counter_update_tokens c (elem # elems) =
     counter_update_tokens (dict_set c elem (counter_get c elem + 1)) elems"

text \<open>
  \<^verbatim>\<open>Counter.update(mapping)\<close> for another counter:
  \<^verbatim>\<open>for elem, count in mapping.items(): self[elem] = count + self.get(elem, 0)\<close>.
  (On an empty \<^verbatim>\<open>self\<close> CPython copies the entries instead, with the same result.)
\<close>

fun counter_update_mapping :: "counter \<Rightarrow> counter \<Rightarrow> counter" where
  "counter_update_mapping c [] = c"
| "counter_update_mapping c ((elem, n) # items) =
     counter_update_mapping (dict_set c elem (n + counter_get c elem)) items"

section \<open>Ranking\<close>

text \<open>
  \<^verbatim>\<open>sorted(xs, key=f, reverse=r)\<close>. Python's sort is stable, and with
  \<^verbatim>\<open>reverse=True\<close> it still keeps elements of equal key in their original order:
  CPython reverses the list, sorts it stably in ascending order and reverses it again.
\<close>

definition py_sorted :: "('a \<Rightarrow> 'k::linorder) \<Rightarrow> bool \<Rightarrow> 'a list \<Rightarrow> 'a list" where
  "py_sorted f r xs = (if r then rev (sort_key f (rev xs)) else sort_key f xs)"

text \<open>\<^verbatim>\<open>return sorted(counter.items(), key=lambda x: x[1], reverse=True)\<close>\<close>

definition get_sorted_list :: "counter \<Rightarrow> (string \<times> int) list" where
  "get_sorted_list counter = py_sorted snd True counter"

section \<open>Strings\<close>

text \<open>
  Cells, tokens and headers are Python strings. A \<open>string\<close> is a Python \<^verbatim>\<open>str\<close> whose
  characters have code points below 256 (ASCII and the Latin-1 supplement), a \<open>char\<close>
  being one character, \<open>of_char\<close> its code point. On these strings the builtins of Python
  are as defined here, for every character.

  \<^verbatim>\<open>c.isspace()\<close>: among the code points below 256 Unicode has twelve whitespace
  characters, the controls 9 to 13 (tab, line feed, vertical tab, form feed, carriage
  return) and 28 to 31 (the separators), the space 32, the next-line control 133 (U+0085)
  and the no-break space 160 (U+00A0).
\<close>

definition isspace :: "char \<Rightarrow> bool" where
  "isspace c =
     (let n = (of_char c :: nat)
      in (9 \<le> n \<and> n \<le> 13) \<or> (28 \<le> n \<and> n \<le> 32) \<or> n = 133 \<or> n = 160)"

text \<open>\<^verbatim>\<open>s.strip()\<close>: drop the leading and the trailing whitespace characters.\<close>

definition strip :: "string \<Rightarrow> string" where
  "strip s = rev (dropWhile isspace (rev (dropWhile isspace s)))"

text \<open>
  \<^verbatim>\<open>s.split(sep)\<close> for a one-character separator: the pieces between the separators,
  empty pieces included, so there is always one piece more than there are separators.
\<close>

fun split :: "char \<Rightarrow> string \<Rightarrow> string list" where
  "split sep [] = [[]]"
| "split sep (c # cs) =
     (if c = sep then [] # split sep cs
      else (case split sep cs of [] \<Rightarrow> [[c]] | piece # pieces \<Rightarrow> (c # piece) # pieces))"

text \<open>
  \<^verbatim>\<open>s.lower()\<close>: below 256 the uppercase letters are A to Z (65 to 90) and the Latin-1
  capitals 192 to 222 without the multiplication sign 215; the lowercase form of each is
  the character 32 code points above it. Every other character stays, and so does the
  length of the string.
\<close>

definition isupper :: "char \<Rightarrow> bool" where
  "isupper c =
     (let n = (of_char c :: nat)
      in (65 \<le> n \<and> n \<le> 90) \<or> (192 \<le> n \<and> n \<le> 222 \<and> n \<noteq> 215))"

definition lower_char :: "char \<Rightarrow> char" where
  "lower_char c = (if isupper c then char_of ((of_char c :: nat) + 32) else c)"

definition lower :: "string \<Rightarrow> string" where
  "lower s = map lower_char s"

section \<open>The language model\<close>

text \<open>
  The spaCy pipeline \<^verbatim>\<open>nlp\<close> is a parameter of every function: a callable from a text
  to a document, or an exception. Of a document the script reads the sentences
  (\<^verbatim>\<open>doc.sents\<close>, each a sequence of tokens) and the entities (\<^verbatim>\<open>doc.ents\<close>); of a token
  the flags \<^verbatim>\<open>is_punct\<close>, \<^verbatim>\<open>is_space\<close>, \<^verbatim>\<open>is_stop\<close>, the tag \<^verbatim>\<open>pos_\<close> (field
  \<open>token_pos\<close>) and the lemma \<^verbatim>\<open>lemma_\<close> (field \<open>token_lemma\<close>); of an entity its
  \<^verbatim>\<open>text\<close> (field \<open>span_text\<close>).
\<close>

record token =
  is_punct :: bool
  is_space :: bool
  is_stop :: bool
  token_pos :: string
  token_lemma :: string

record span =
  span_text :: string

record doc =
  sents :: "token list list"
  ents :: "span list"

type_synonym nlp = "string \<Rightarrow> error + doc"

section \<open>Tokenization\<close>

text \<open>
  \<^verbatim>\<open>tokenize_description\<close>, the loop over the tokens of one sentence:
  \<^verbatim>\<open>if token.is_punct or token.is_space or token.is_stop: continue\<close>,
  \<^verbatim>\<open>tokens.append(token.lemma_.lower())\<close>.
\<close>

fun description_sent_loop :: "token list \<Rightarrow> string list \<Rightarrow> string list" where
  "description_sent_loop [] tokens = tokens"
| "description_sent_loop (token # sent) tokens =
     (if is_punct token \<or> is_space token \<or> is_stop token
      then description_sent_loop sent tokens
      else description_sent_loop sent (tokens @ [lower (token_lemma token)]))"

text \<open>\<^verbatim>\<open>for sent in doc.sents: ...\<close>\<close>

fun description_doc_loop :: "token list list \<Rightarrow> string list \<Rightarrow> string list" where
  "description_doc_loop [] tokens = tokens"
| "description_doc_loop (sent # rest) tokens =
     description_doc_loop rest (description_sent_loop sent tokens)"

definition tokenize_description :: "string \<Rightarrow> nlp \<Rightarrow> error + string list" where
  "tokenize_description text nlp =
     (case nlp text of
        Inl e \<Rightarrow> Inl e
      | Inr doc \<Rightarrow> Inr (description_doc_loop (sents doc) []))"

text \<open>
  \<^verbatim>\<open>tokenize_adjective_cell\<close>, the loop over the tokens of one sentence:
  \<^verbatim>\<open>if token.pos_ == "ADJ" and not token.is_stop and not token.is_punct:\<close>
  \<^verbatim>\<open>tokens.append(token.lemma_.lower())\<close>.
\<close>

fun adjective_sent_loop :: "token list \<Rightarrow> string list \<Rightarrow> string list" where
  "adjective_sent_loop [] tokens = tokens"
| "adjective_sent_loop (token # sent) tokens =
     (if token_pos token = ''ADJ'' \<and> \<not> is_stop token \<and> \<not> is_punct token
      then adjective_sent_loop sent (tokens @ [lower (token_lemma token)])
      else adjective_sent_loop sent tokens)"

fun adjective_doc_loop :: "token list list \<Rightarrow> string list \<Rightarrow> string list" where
  "adjective_doc_loop [] tokens = tokens"
| "adjective_doc_loop (sent # rest) tokens =
     adjective_doc_loop rest (adjective_sent_loop sent tokens)"

text \<open>\<^verbatim>\<open>for cand in candidates: doc = nlp(cand); ...\<close>\<close>

fun adjective_cand_loop :: "nlp \<Rightarrow> string list \<Rightarrow> string list \<Rightarrow> error + string list" where
  "adjective_cand_loop nlp [] tokens = Inr tokens"
| "adjective_cand_loop nlp (cand # candidates) tokens =
     (case nlp cand of
        Inl e \<Rightarrow> Inl e
      | Inr doc \<Rightarrow> adjective_cand_loop nlp candidates (adjective_doc_loop (sents doc) tokens))"

text \<open>\<^verbatim>\<open>candidates = [item.strip() for item in cell.split(",") if item.strip()]\<close>\<close>

definition candidates_of :: "string \<Rightarrow> string list" where
  "candidates_of cell = map strip (filter (\<lambda>item. strip item \<noteq> []) (split (CHR '','') cell))"

definition tokenize_adjective_cell :: "string \<Rightarrow> nlp \<Rightarrow> error + string list" where
  "tokenize_adjective_cell cell nlp = adjective_cand_loop nlp (candidates_of cell) []"

text \<open>\<^verbatim>\<open>return [ent.text for ent in doc.ents]\<close>\<close>

definition tokenize_named_entities :: "string \<Rightarrow> nlp \<Rightarrow> error + string list" where
  "tokenize_named_entities text nlp =
     (case nlp text of
        Inl e \<Rightarrow> Inl e
      | Inr doc \<Rightarrow> Inr (map span_text (ents doc)))"

section \<open>Aggregation\<close>

text \<open>
  A cell of the input table is missing (\<^verbatim>\<open>pd.isna(cell)\<close>) or a text. A row maps column
  names to cells, \<^verbatim>\<open>row[col]\<close> raising \<open>KeyError\<close> on a name the table does not have;
  the table is the list of its rows in the order of \<^verbatim>\<open>data.iterrows()\<close>. The result
  \<^verbatim>\<open>counters\<close> is a dict from column names to counters, only ever read by key.
\<close>

datatype cell = Missing | Text string

type_synonym row = "string \<rightharpoonup> cell"

type_synonym counters = "string \<rightharpoonup> counter"

type_synonym tokenize_func = "string \<Rightarrow> nlp \<Rightarrow> error + string list"

text \<open>\<^verbatim>\<open>counters = {col: Counter() for col in columns}\<close>\<close>

definition init_counters :: "string list \<Rightarrow> counters" where
  "init_counters columns = fold (\<lambda>col counters. counters(col \<mapsto> [])) columns Map.empty"

text \<open>
  The inner loop \<^verbatim>\<open>for col in columns\<close> on one row: a missing cell is skipped with
  \<^verbatim>\<open>continue\<close>, any other cell is tokenized and \<^verbatim>\<open>counters[col].update(tokens)\<close> runs.
\<close>

fun row_loop :: "tokenize_func \<Rightarrow> nlp \<Rightarrow> row \<Rightarrow> string list \<Rightarrow> counters \<Rightarrow> error + counters" where
  "row_loop tokenize_func nlp row [] counters = Inr counters"
| "row_loop tokenize_func nlp row (col # columns) counters =
     (case row col of
        None \<Rightarrow> Inl (KeyError col)
      | Some Missing \<Rightarrow> row_loop tokenize_func nlp row columns counters
      | Some (Text cell) \<Rightarrow>
          (case tokenize_func cell nlp of
             Inl e \<Rightarrow> Inl e
           | Inr tokens \<Rightarrow>
               (case counters col of
                  None \<Rightarrow> Inl (KeyError col)
                | Some c \<Rightarrow>
                    row_loop tokenize_func nlp row columns
                      (counters(col \<mapsto> counter_update_tokens c tokens)))))"

text \<open>The outer loop \<^verbatim>\<open>for _, row in data.iterrows()\<close>.\<close>

fun data_loop :: "tokenize_func \<Rightarrow> nlp \<Rightarrow> row list \<Rightarrow> string list \<Rightarrow> counters \<Rightarrow> error + counters" where
  "data_loop tokenize_func nlp [] columns counters = Inr counters"
| "data_loop tokenize_func nlp (row # data) columns counters =
     (case row_loop tokenize_func nlp row columns counters of
        Inl e \<Rightarrow> Inl e
      | Inr counters' \<Rightarrow> data_loop tokenize_func nlp data columns counters')"

definition compute_counters :: "row list \<Rightarrow> string list \<Rightarrow> tokenize_func \<Rightarrow> nlp \<Rightarrow> error + counters" where
  "compute_counters data columns tokenize_func nlp =
     data_loop tokenize_func nlp data columns (init_counters columns)"

section \<open>The master table\<close>

text \<open>
  The data frame is the ordered dict \<^verbatim>\<open>df_dict\<close> of its columns, a word column being a
  list of strings and a frequency column a list of integers. \<^verbatim>\<open>pd.DataFrame(df_dict)\<close>
  raises \<open>ValueError\<close> unless all columns have one length.
\<close>

datatype column = StrCol "string list" | IntCol "int list"

type_synonym dataframe = "(string \<times> column) list"

fun column_length :: "column \<Rightarrow> nat" where
  "column_length (StrCol words) = length words"
| "column_length (IntCol freqs) = length freqs"

definition pd_DataFrame :: "(string \<times> column) list \<Rightarrow> error + dataframe" where
  "pd_DataFrame df_dict =
     (if length (remdups (map (\<lambda>(header, column). column_length column) df_dict)) \<le> 1
      then Inr df_dict else Inl ValueError)"

text \<open>
  The first loop of \<^verbatim>\<open>build_master_dataframe\<close>, on the state
  \<open>(sorted_data, overall, max_length)\<close>:
  \<^verbatim>\<open>sorted_list = get_sorted_list(counters[col]); sorted_data[col] = sorted_list;\<close>
  \<^verbatim>\<open>overall.update(counters[col]); max_length = max(max_length, len(sorted_list))\<close>.
\<close>

type_synonym rank_state = "(string \<rightharpoonup> (string \<times> int) list) \<times> counter \<times> nat"

fun rank_loop :: "counters \<Rightarrow> string list \<Rightarrow> rank_state \<Rightarrow> error + rank_state" where
  "rank_loop counters [] state = Inr state"
| "rank_loop counters (col # columns) (sorted_data, overall, max_length) =
     (case counters col of
        None \<Rightarrow> Inl (KeyError col)
      | Some counter \<Rightarrow>
          (let sorted_list = get_sorted_list counter
           in rank_loop counters columns
                (sorted_data(col \<mapsto> sorted_list),
                 counter_update_mapping overall counter,
                 max max_length (length sorted_list))))"

text \<open>
  \<^verbatim>\<open>while len(words) < max_length: words.append(""); freqs.append(0)\<close>
\<close>

function pad_loop :: "string list \<Rightarrow> int list \<Rightarrow> nat \<Rightarrow> string list \<times> int list" where
  "pad_loop words freqs max_length =
     (if length words < max_length
      then pad_loop (words @ ['''']) (freqs @ [0]) max_length
      else (words, freqs))"
  by pat_completeness auto
termination
  by (relation "measure (\<lambda>(words, freqs, max_length). max_length - length words)") auto

declare pad_loop.simps [simp del]

text \<open>
  The second loop, filling \<^verbatim>\<open>df_dict\<close> with the padded pair of every column under the
  headers \<^verbatim>\<open>f"{col}_Word"\<close> and \<^verbatim>\<open>f"{col}_Frequency"\<close>.
\<close>

fun fill_loop :: "(string \<rightharpoonup> (string \<times> int) list) \<Rightarrow> string list \<Rightarrow> nat \<Rightarrow>
    (string \<times> column) list \<Rightarrow> error + (string \<times> column) list" where
  "fill_loop sorted_data [] max_length df_dict = Inr df_dict"
| "fill_loop sorted_data (col # columns) max_length df_dict =
     (case sorted_data col of
        None \<Rightarrow> Inl (KeyError col)
      | Some sorted_list \<Rightarrow>
          (case pad_loop (map fst sorted_list) (map snd sorted_list) max_length of
             (words, freqs) \<Rightarrow>
               fill_loop sorted_data columns max_length
                 (dict_set (dict_set df_dict (col @ ''_Word'') (StrCol words))
                    (col @ ''_Frequency'') (IntCol freqs))))"

definition build_master_dataframe :: "counters \<Rightarrow> string list \<Rightarrow> error + dataframe" where
  "build_master_dataframe counters columns =
     (case rank_loop counters columns (Map.empty, [], 0) of
        Inl e \<Rightarrow> Inl e
      | Inr (sorted_data, overall, max_length0) \<Rightarrow>
          (let overall_sorted = get_sorted_list overall;
               max_length = max max_length0 (length overall_sorted)
           in case fill_loop sorted_data columns max_length [] of
                Inl e \<Rightarrow> Inl e
              | Inr df_dict \<Rightarrow>
                  (case pad_loop (map fst overall_sorted) (map snd overall_sorted) max_length of
                     (overall_words, overall_freqs) \<Rightarrow>
                       pd_DataFrame
                         (dict_set (dict_set df_dict ''Overall_Word'' (StrCol overall_words))
                            ''Overall_Frequency'' (IntCol overall_freqs)))))"

section \<open>The pipeline\<close>

text \<open>
  \<^verbatim>\<open>process_and_save\<close> acts on the world outside the program: the files, the lines
  printed so far, and which files can be written at all.

  \<^verbatim>\<open>master_df.to_csv(output_filename, index=False)\<close> opens the file for writing, which
  replaces whatever the file held, and writes the table as CSV text; this text is a
  function of the table alone, and the file is modelled as holding the table. When the
  file cannot be opened for writing (no such directory, no permission), the call raises
  \<open>OSError\<close> and the exception ends the run before anything is printed.
\<close>

record world =
  files :: "string \<rightharpoonup> dataframe"
  stdout :: "string list"
  writable :: "string \<Rightarrow> bool"

definition to_csv :: "dataframe \<Rightarrow> string \<Rightarrow> world \<Rightarrow> error + world" where
  "to_csv df path w =
     (if writable w path then Inr (w\<lparr>files := (files w)(path \<mapsto> df)\<rparr>)
      else Inl (OSError path))"

text \<open>\<^verbatim>\<open>print(line)\<close>\<close>

definition print_line :: "string \<Rightarrow> world \<Rightarrow> world" where
  "print_line line w = w\<lparr>stdout := stdout w @ [line]\<rparr>"

definition process_and_save ::
    "row list \<Rightarrow> string list \<Rightarrow> tokenize_func \<Rightarrow> nlp \<Rightarrow> string \<Rightarrow> world \<Rightarrow> error + world" where
  "process_and_save data columns tokenize_func nlp output_filename w =
     (case compute_counters data columns tokenize_func nlp of
        Inl e \<Rightarrow> Inl e
      | Inr counters \<Rightarrow>
          (case build_master_dataframe counters columns of
             Inl e \<Rightarrow> Inl e
           | Inr master_df \<Rightarrow>
               (case to_csv master_df output_filename w of
                  Inl e \<Rightarrow> Inl e
                | Inr w' \<Rightarrow> Inr (print_line (''Saved: '' @ output_filename) w'))))"

section \<open>Auxiliary notions for the statements\<close>

text \<open>
  The outcome of calls made one after the other, the first exception ending the run:
  the first exception, or the values of all the calls.
\<close>

fun first_error_or_all :: "(error + 'a) list \<Rightarrow> error + 'a list" where
  "first_error_or_all [] = Inr []"
| "first_error_or_all (Inl e # results) = Inl e"
| "first_error_or_all (Inr x # results) =
     (case first_error_or_all results of Inl e \<Rightarrow> Inl e | Inr xs \<Rightarrow> Inr (x # xs))"

text \<open>
  A small language model for the examples: the empty text has no sentence and no
  entity; every other text is one sentence of one token, an adjective whose lemma is the
  text itself, and one entity.
\<close>

definition word_nlp :: nlp where
  "word_nlp s =
     (if s = [] then Inr \<lparr>sents = [], ents = []\<rparr>
      else Inr \<lparr>sents = [[\<lparr>is_punct = False, is_space = False, is_stop = False,
        token_pos = ''ADJ'', token_lemma = s\<rparr>]], ents = [\<lparr>span_text = s\<rparr>]\<rparr>)"

text \<open>Two counters for the examples.\<close>

definition example_counters :: counters where
  "example_counters = [''c1'' \<mapsto> [(''x'', 1), (''y'', 2)], ''c2'' \<mapsto> [(''x'', 3)]]"

text \<open>The count of a token in the counter of a column, as \<^verbatim>\<open>counters[col][t]\<close> reads it.\<close>

definition column_count :: "counters \<Rightarrow> string \<Rightarrow> string \<Rightarrow> int" where
  "column_count counters col t = (case counters col of None \<Rightarrow> 0 | Some c \<Rightarrow> counter_get c t)"

text \<open>The invariant of the aggregation loops: distinct keys and counts of at least 1.\<close>

definition counters_ok :: "counters \<Rightarrow> bool" where
  "counters_ok counters =
     (\<forall>col c. counters col = Some c \<longrightarrow> wf_counter c \<and> (\<forall>(t, n)\<in>set c. 1 \<le> n))"

text \<open>A table of two rows and two columns for the examples.\<close>

definition example_data :: "row list" where
  "example_data = [[''c1'' \<mapsto> Text ''happy, happy'', ''c2'' \<mapsto> Missing],
                   [''c1'' \<mapsto> Text ''sad'', ''c2'' \<mapsto> Text ''happy'']]"

text \<open>The ranked list of a column: its counter, sorted by \<open>get_sorted_list\<close>.\<close>

definition ranked_list :: "counters \<Rightarrow> string \<Rightarrow> (string \<times> int) list" where
  "ranked_list counters col = (case counters col of None \<Rightarrow> [] | Some c \<Rightarrow> get_sorted_list c)"

text \<open>
  Padding on the right up to a length: the entries of the list, all of them and in their
  order, and after them only copies of the padding value.
\<close>

definition right_pad :: "nat \<Rightarrow> 'a \<Rightarrow> 'a list \<Rightarrow> 'a list" where
  "right_pad n x xs = xs @ replicate (n - length xs) x"

text \<open>The world before the first run: no file, nothing printed, every file writable.\<close>

definition empty_world :: world where
  "empty_world = \<lparr>files = Map.empty, stdout = [], writable = (\<lambda>path. True)\<rparr>"

text \<open>
  A language model with non-empty lemmas and entity texts: every token that is neither
  punctuation nor a stop word has a non-empty lemma, and every entity a non-empty text.
\<close>

definition nonempty_model :: "nlp \<Rightarrow> bool" where
  "nonempty_model nlp =
     (\<forall>s doc. nlp s = Inr doc \<longrightarrow>
        (\<forall>t\<in>set (concat (sents doc)). \<not> is_punct t \<and> \<not> is_stop t \<longrightarrow> token_lemma t \<noteq> []) \<and>
        (\<forall>e\<in>set (ents doc). span_text e \<noteq> []))"

text \<open>
  A language model that leaves the lemma empty, as a pipeline without a lemmatizer does:
  every text is one sentence of one ordinary token whose lemma is the empty string.
\<close>

definition empty_lemma_nlp :: nlp where
  "empty_lemma_nlp s = Inr \<lparr>sents = [[\<lparr>is_punct = False, is_space = False, is_stop = False,
      token_pos = ''NOUN'', token_lemma = ''''\<rparr>]], ents = []\<rparr>"

text \<open>\<^verbatim>\<open>sep.join(pieces)\<close>, the inverse of splitting.\<close>

fun join :: "char \<Rightarrow> string list \<Rightarrow> string" where
  "join sep [] = []"
| "join sep [piece] = piece"
| "join sep (piece # next_piece # pieces) = piece @ sep # join sep (next_piece # pieces)"

text \<open>
  A language model for the FullText example: whatever the text, the document has two
  sentences, with proper nouns whose lemmas keep their capitals (one of them a Latin-1
  capital), a stop word, a punctuation mark and a whitespace token.
\<close>

definition example_token :: "string \<Rightarrow> string \<Rightarrow> bool \<Rightarrow> bool \<Rightarrow> bool \<Rightarrow> token" where
  "example_token lemma pos punct space stop =
     \<lparr>is_punct = punct, is_space = space, is_stop = stop, token_pos = pos, token_lemma = lemma\<rparr>"

definition story_nlp :: nlp where
  "story_nlp s = Inr \<lparr>sents =
       [[example_token (CHR 0xC9 # ''lodie'') ''PROPN'' False False False,
         example_token ''see'' ''VERB'' False False False,
         example_token ''the'' ''DET'' False False True,
         example_token ''Paris'' ''PROPN'' False False False,
         example_token ''.'' ''PUNCT'' True False False],
        [example_token '' '' ''SPACE'' False True False,
         example_token ''It'' ''PRON'' False False True,
         example_token ''GREAT'' ''ADJ'' False False False]],
     ents = [\<lparr>span_text = ''Paris''\<rparr>]\<rparr>"

text \<open>
  The example table with one more column, which is not designated, and its cells.
\<close>

definition example_data_stamped :: "row list" where
  "example_data_stamped =
     [[''Timestamp'' \<mapsto> Text ''12:00'', ''c1'' \<mapsto> Text ''happy, happy'', ''c2'' \<mapsto> Missing],
      [''Timestamp'' \<mapsto> Missing, ''c1'' \<mapsto> Text ''sad'', ''c2'' \<mapsto> Text ''happy'']]"

text \<open>
  A language model that answers as \<open>word_nlp\<close> on the three words of the example table
  and fails on every other text.
\<close>

definition three_word_nlp :: nlp where
  "three_word_nlp s =
     (if s = ''happy'' \<or> s = ''sad'' then word_nlp s else Inl (CapabilityError s))"

section \<open>Properties of the ranking\<close>

lemma py_sorted_reverse_mset: "mset (py_sorted f True xs) = mset xs"
  by (simp add: py_sorted_def)

lemma py_sorted_reverse_length: "length (py_sorted f True xs) = length xs"
  by (simp add: py_sorted_def)

lemma py_sorted_reverse_set: "set (py_sorted f True xs) = set xs"
  by (simp add: py_sorted_def)

lemma py_sorted_reverse_desc:
  "sorted_wrt (\<lambda>a b. f b \<le> f a) (py_sorted f True xs)"
proof -
  have "sorted (map f (sort_key f (rev xs)))"
    by (rule sorted_sort_key)
  then have "sorted_wrt (\<lambda>a b. f a \<le> f b) (sort_key f (rev xs))"
    by (simp add: sorted_map)
  then show ?thesis
    by (simp add: py_sorted_def sorted_wrt_rev)
qed

lemma py_sorted_reverse_stable:
  "filter (\<lambda>e. f e = k) (py_sorted f True xs) = filter (\<lambda>e. f e = k) xs"
proof -
  have "filter (\<lambda>e. f e = k) (rev (sort_key f (rev xs)))
        = rev (filter (\<lambda>e. f e = k) (sort_key f (rev xs)))"
    by (simp add: rev_filter)
  also have "\<dots> = rev (filter (\<lambda>e. f e = k) (rev xs))"
    by (simp only: sort_key_stable)
  also have "\<dots> = filter (\<lambda>e. f e = k) xs"
    by (simp add: rev_filter)
  finally show ?thesis
    by (simp add: py_sorted_def)
qed

lemma length_get_sorted_list: "length (get_sorted_list c) = length c"
  by (simp add: get_sorted_list_def py_sorted_reverse_length)

lemma set_get_sorted_list: "set (get_sorted_list c) = set c"
  by (simp add: get_sorted_list_def py_sorted_reverse_set)

text \<open>
  C3. The ranked list of a counter holds exactly the counter's entries, its frequencies
  never increase from one entry to the next, and for every frequency \<open>k\<close> the entries of
  frequency \<open>k\<close> stand in the ranked list in the order they have in the counter, which is
  the order in which their tokens were first inserted.
\<close>

theorem get_sorted_list_ranked:
  "mset (get_sorted_list counter) = mset counter \<and>
   sorted_wrt (\<lambda>a b. snd b \<le> snd a) (get_sorted_list counter) \<and>
   (\<forall>k. filter (\<lambda>e. snd e = k) (get_sorted_list counter) = filter (\<lambda>e. snd e = k) counter)"
  unfolding get_sorted_list_def
  using py_sorted_reverse_mset [of snd counter]
    py_sorted_reverse_desc [of snd counter]
    py_sorted_reverse_stable [of snd _ counter]
  by blast

section \<open>Properties of the string operations\<close>

lemma split_not_Nil: "split sep s \<noteq> []"
  by (induction s) (auto split: list.splits)

lemma join_Cons: "pieces \<noteq> [] \<Longrightarrow> join sep (piece # pieces) = piece @ sep # join sep pieces"
  by (cases pieces) auto

lemma join_Cons_Cons:
  "pieces \<noteq> [] \<Longrightarrow> join sep ((c # piece) # pieces) = c # join sep (piece # pieces)"
  by (cases pieces) auto

text \<open>
  Splitting on a separator cuts at every separator and nowhere else: no piece contains
  the separator, there is one piece more than separators, and joining the pieces with
  the separator gives the string back.
\<close>

lemma split_no_sep: "piece \<in> set (split sep s) \<Longrightarrow> sep \<notin> set piece"
proof (induction s arbitrary: piece)
  case Nil
  then show ?case by simp
next
  case (Cons c s)
  obtain p ps where ps: "split sep s = p # ps"
    using split_not_Nil [of sep s] by (cases "split sep s") auto
  from Cons ps show ?case
    by (auto split: if_splits)
qed

lemma length_split: "length (split sep s) = Suc (count_list s sep)"
proof (induction s)
  case Nil
  show ?case by simp
next
  case (Cons c s)
  obtain p ps where ps: "split sep s = p # ps"
    using split_not_Nil [of sep s] by (cases "split sep s") auto
  from Cons ps show ?case by auto
qed

lemma join_split: "join sep (split sep s) = s"
proof (induction s)
  case Nil
  show ?case by simp
next
  case (Cons c s)
  obtain p ps where ps: "split sep s = p # ps"
    using split_not_Nil [of sep s] by (cases "split sep s") auto
  show ?case
  proof (cases "c = sep")
    case True
    with Cons show ?thesis
      by (simp add: join_Cons split_not_Nil)
  next
    case False
    with Cons ps show ?thesis
      by (cases ps) auto
  qed
qed

text \<open>
  Stripping removes a run of whitespace at each end and nothing else, and what is left
  neither starts nor ends with whitespace.
\<close>

lemma strip_decomposition:
  "\<exists>l r. s = l @ strip s @ r \<and> (\<forall>c\<in>set l. isspace c) \<and> (\<forall>c\<in>set r. isspace c)"
proof -
  let ?t = "dropWhile isspace s"
  let ?l = "takeWhile isspace s"
  let ?r = "rev (takeWhile isspace (rev ?t))"
  have "strip s @ ?r = rev (takeWhile isspace (rev ?t) @ dropWhile isspace (rev ?t))"
    by (simp only: strip_def rev_append)
  also have "\<dots> = ?t"
    by simp
  finally have t: "?t = strip s @ ?r"
    by (rule sym)
  have "s = ?l @ ?t" by simp
  with t have "s = ?l @ strip s @ ?r" by simp
  moreover have "\<forall>c\<in>set ?l. isspace c"
    by (auto dest: set_takeWhileD)
  moreover have "\<forall>c\<in>set ?r. isspace c"
    by (auto dest: set_takeWhileD)
  ultimately show ?thesis by blast
qed

lemma strip_ends:
  assumes "strip s \<noteq> []"
  shows "\<not> isspace (hd (strip s)) \<and> \<not> isspace (last (strip s))"
proof -
  let ?t = "dropWhile isspace s"
  let ?u = "dropWhile isspace (rev ?t)"
  from assms have u: "?u \<noteq> []" by (simp add: strip_def)
  have t: "?t \<noteq> []"
  proof
    assume "?t = []"
    then have "?u = []" by (simp only: rev.simps dropWhile.simps)
    with u show False by (rule notE)
  qed
  from u have "\<not> isspace (hd ?u)" by (rule hd_dropWhile)
  then have l: "\<not> isspace (last (strip s))"
    using u by (simp add: strip_def last_rev)
  from u have "last (takeWhile isspace (rev ?t) @ ?u) = last ?u"
    by (rule last_appendR)
  then have "last (rev ?t) = last ?u"
    by (simp only: takeWhile_dropWhile_id)
  moreover from t have "last (rev ?t) = hd ?t"
    by (simp add: last_rev)
  moreover from u have "hd (strip s) = last ?u"
    by (simp add: strip_def hd_rev)
  ultimately have "hd (strip s) = hd ?t"
    by simp
  moreover from t have "\<not> isspace (hd ?t)" by (rule hd_dropWhile)
  ultimately show ?thesis using l by simp
qed

text \<open>Lowercasing keeps the length of a string.\<close>

lemma lower_length: "length (lower s) = length s"
  by (simp add: lower_def)

text \<open>The whitespace characters, by their code points.\<close>

lemma isspace_codes:
  "isspace c = (of_char c \<in> {9, 10, 11, 12, 13, 28, 29, 30, 31, 32, 133, 160 :: nat})"
  by (auto simp: isspace_def Let_def)

lemma isspace_examples:
  "isspace CHR '' ''" "isspace CHR 0x09" "isspace CHR 0x0A" "isspace CHR 0x0D"
  "isspace CHR 0x1F" "isspace CHR 0x85" "isspace CHR 0xA0"
  "\<not> isspace CHR ''a''" "\<not> isspace CHR '',''" "\<not> isspace CHR 0x08" "\<not> isspace CHR 0x21"
  "\<not> isspace CHR 0x84" "\<not> isspace CHR 0xA1"
  by (simp_all add: isspace_def)

lemma strip_example:
  "strip ([CHR 0xA0, CHR 0x09] @ ''a b'' @ [CHR 0x85, CHR 0x0A, CHR 0x1C]) = ''a b''"
  by code_simp

text \<open>
  Lowercasing changes the uppercase letters and nothing else, leaves no uppercase letter
  behind, and lowering twice is lowering once.
\<close>

lemma lower_char_examples:
  "lower_char CHR ''A'' = CHR ''a''" "lower_char CHR ''Z'' = CHR ''z''"
  "lower_char CHR 0xC0 = CHR 0xE0" "lower_char CHR 0xC9 = CHR 0xE9"
  "lower_char CHR 0xDE = CHR 0xFE" "lower_char CHR 0xD7 = CHR 0xD7"
  "lower_char CHR 0xDF = CHR 0xDF" "lower_char CHR ''a'' = CHR ''a''"
  "lower_char CHR ''@'' = CHR ''@''" "lower_char CHR ''['' = CHR ''[''"
  "lower_char CHR 0xFF = CHR 0xFF" "lower_char CHR ''7'' = CHR ''7''"
  by code_simp+

lemma lower_examples:
  "lower ''Happy'' = ''happy''" "lower ''SAD'' = ''sad''"
  "lower (CHR 0xC9 # ''lodie'') = CHR 0xE9 # ''lodie''"
  "lower ''it's 4 PM.'' = ''it's 4 pm.''"
  by code_simp+

lemma lower_char_code: "isupper c \<Longrightarrow> (of_char (lower_char c) :: nat) = of_char c + 32"
  by (auto simp: lower_char_def isupper_def Let_def)

lemma lower_char_not_upper: "\<not> isupper (lower_char c)"
  by (auto simp: lower_char_def isupper_def Let_def)

lemma lower_char_other: "\<not> isupper c \<Longrightarrow> lower_char c = c"
  by (simp add: lower_char_def)

lemma lower_no_upper: "c \<in> set (lower s) \<Longrightarrow> \<not> isupper c"
  by (auto simp: lower_def lower_char_not_upper)

lemma lower_idem: "lower (lower s) = lower s"
  by (simp add: lower_def lower_char_other lower_char_not_upper)

section \<open>Properties of the tokenization\<close>

lemma description_sent_loop_eq:
  "description_sent_loop sent tokens =
     tokens @ [lower (token_lemma t). t \<leftarrow> sent, \<not> (is_punct t \<or> is_space t \<or> is_stop t)]"
  by (induction sent arbitrary: tokens) auto

lemma description_doc_loop_eq:
  "description_doc_loop ss tokens =
     tokens @ [lower (token_lemma t). t \<leftarrow> concat ss, \<not> (is_punct t \<or> is_space t \<or> is_stop t)]"
  by (induction ss arbitrary: tokens) (auto simp: description_sent_loop_eq)

text \<open>
  C5. With the FullText policy (\<^verbatim>\<open>tokenize_description\<close>) the text goes to the language
  model once; an exception of the model is the result; otherwise the result is the list
  of the lowercased lemmas of the tokens that are none of punctuation, whitespace and
  stop word, the sentences taken in document order and the tokens in sentence order.
  Lowercasing is \<open>lower\<close>, Python's \<^verbatim>\<open>str.lower\<close> on the strings of the model: it lowers
  the Latin-1 capitals as well as A to Z. The example after the theorem has lemmas with
  capitals of both kinds, a stop word, a punctuation mark and a whitespace token.
\<close>

theorem tokenize_description_full_text:
  "tokenize_description text nlp =
     (case nlp text of
        Inl e \<Rightarrow> Inl e
      | Inr doc \<Rightarrow>
          Inr [lower (token_lemma t). t \<leftarrow> concat (sents doc),
                 \<not> (is_punct t \<or> is_space t \<or> is_stop t)])"
  by (simp add: tokenize_description_def description_doc_loop_eq split: sum.splits)

theorem tokenize_description_full_text_witness:
  "tokenize_description ''Elodie saw the Paris. It GREAT'' story_nlp =
     Inr [CHR 0xE9 # ''lodie'', ''see'', ''paris'', ''great'']"
proof -
  have "(case story_nlp ''Elodie saw the Paris. It GREAT'' of
           Inl e \<Rightarrow> Inl e
         | Inr doc \<Rightarrow>
             Inr [lower (token_lemma t). t \<leftarrow> concat (sents doc),
                    \<not> (is_punct t \<or> is_space t \<or> is_stop t)]) =
        Inr [CHR 0xE9 # ''lodie'', ''see'', ''paris'', ''great'']"
    by code_simp
  with tokenize_description_full_text [of "''Elodie saw the Paris. It GREAT''" story_nlp]
  show ?thesis by (rule trans)
qed

lemma adjective_sent_loop_eq:
  "adjective_sent_loop sent tokens =
     tokens @ [lower (token_lemma t). t \<leftarrow> sent,
                 token_pos t = ''ADJ'' \<and> \<not> is_stop t \<and> \<not> is_punct t]"
  by (induction sent arbitrary: tokens) auto

lemma adjective_doc_loop_eq:
  "adjective_doc_loop ss tokens =
     tokens @ [lower (token_lemma t). t \<leftarrow> concat ss,
                 token_pos t = ''ADJ'' \<and> \<not> is_stop t \<and> \<not> is_punct t]"
  by (induction ss arbitrary: tokens) (auto simp: adjective_sent_loop_eq)

lemma adjective_cand_loop_eq:
  "adjective_cand_loop nlp cands tokens =
     (case first_error_or_all (map nlp cands) of
        Inl e \<Rightarrow> Inl e
      | Inr docs \<Rightarrow>
          Inr (tokens @ concat (map (\<lambda>doc. [lower (token_lemma t). t \<leftarrow> concat (sents doc),
                 token_pos t = ''ADJ'' \<and> \<not> is_stop t \<and> \<not> is_punct t]) docs)))"
proof (induction cands arbitrary: tokens)
  case Nil
  show ?case by simp
next
  case (Cons cand cands)
  show ?case
  proof (cases "nlp cand")
    case (Inl e)
    then show ?thesis by simp
  next
    case (Inr doc)
    then show ?thesis
      by (simp add: Cons.IH adjective_doc_loop_eq split: sum.splits)
  qed
qed

lemma candidates_of_eq:
  "candidates_of cell = [piece \<leftarrow> map strip (split (CHR '','') cell). piece \<noteq> []]"
  by (simp add: candidates_of_def filter_map comp_def)

lemma candidates_happy: "candidates_of ''happy, happy'' = [''happy'', ''happy'']"
  by (simp add: candidates_of_def strip_def isspace_def)

text \<open>
  The pieces that go to the language model: each is a piece of the cell between two
  commas without the whitespace around it, so it is not empty, has no comma and neither
  starts nor ends with a whitespace character.
\<close>

lemma candidates_trimmed:
  assumes "piece \<in> set (candidates_of cell)"
  shows "piece \<noteq> [] \<and> CHR '','' \<notin> set piece \<and>
         \<not> isspace (hd piece) \<and> \<not> isspace (last piece) \<and>
         (\<exists>item\<in>set (split (CHR '','') cell). \<exists>l r.
             item = l @ piece @ r \<and> (\<forall>c\<in>set l. isspace c) \<and> (\<forall>c\<in>set r. isspace c))"
proof -
  from assms obtain item where
    item: "item \<in> set (split (CHR '','') cell)" and
    ne: "strip item \<noteq> []" and
    piece: "piece = strip item"
    by (auto simp: candidates_of_def)
  from strip_decomposition [of item] obtain l r where
    d: "item = l @ strip item @ r" "\<forall>c\<in>set l. isspace c" "\<forall>c\<in>set r. isspace c"
    by blast
  from split_no_sep [OF item] have "CHR '','' \<notin> set item" .
  with d(1) have "CHR '','' \<notin> set (strip item)"
    by (metis Un_iff set_append)
  with ne strip_ends [OF ne] item d show ?thesis
    unfolding piece by blast
qed

text \<open>
  C4. With the AdjectiveList policy (\<^verbatim>\<open>tokenize_adjective_cell\<close>) the cell is split on
  commas, every piece is stripped of surrounding whitespace and the empty pieces are
  dropped; the remaining pieces go to the language model one by one, in order, an
  exception of the model being the result; otherwise the result lists, piece after piece
  and within a piece in token order, the lowercased lemmas of the tokens tagged
  \<^verbatim>\<open>ADJ\<close> that are neither stop words nor punctuation. In particular, when the model makes
  of \<^verbatim>\<open>happy\<close> a single such token of lemma \<^verbatim>\<open>happy\<close>, the cell \<^verbatim>\<open>happy, happy\<close> gives
  two tokens. Whitespace is what \<open>isspace\<close> holds of and lowercasing is \<open>lower\<close>, Python's
  \<^verbatim>\<open>str.strip\<close> and \<^verbatim>\<open>str.lower\<close> on the strings of the model: the no-break space and the
  next-line control are stripped like blanks and tabs, and the Latin-1 capitals are
  lowered like A to Z. The example after the theorem has pieces wrapped in a no-break
  space, a tab and a next-line control, empty and blank pieces, and capitals of both kinds.
\<close>

theorem tokenize_adjective_cell_adjective_list:
  "tokenize_adjective_cell cell nlp =
     (case first_error_or_all
             (map nlp [piece \<leftarrow> map strip (split (CHR '','') cell). piece \<noteq> []]) of
        Inl e \<Rightarrow> Inl e
      | Inr docs \<Rightarrow>
          Inr (concat (map (\<lambda>doc. [lower (token_lemma t). t \<leftarrow> concat (sents doc),
                 token_pos t = ''ADJ'' \<and> \<not> is_stop t \<and> \<not> is_punct t]) docs)))
   \<and> (\<forall>doc t. nlp ''happy'' = Inr doc \<and> concat (sents doc) = [t] \<and> token_pos t = ''ADJ'' \<and>
          \<not> is_stop t \<and> \<not> is_punct t \<and> token_lemma t = ''happy'' \<longrightarrow>
        tokenize_adjective_cell ''happy, happy'' nlp = Inr [''happy'', ''happy''])"
proof (intro conjI allI impI)
  show "tokenize_adjective_cell cell nlp =
     (case first_error_or_all
             (map nlp [piece \<leftarrow> map strip (split (CHR '','') cell). piece \<noteq> []]) of
        Inl e \<Rightarrow> Inl e
      | Inr docs \<Rightarrow>
          Inr (concat (map (\<lambda>doc. [lower (token_lemma t). t \<leftarrow> concat (sents doc),
                 token_pos t = ''ADJ'' \<and> \<not> is_stop t \<and> \<not> is_punct t]) docs)))"
    by (simp add: tokenize_adjective_cell_def adjective_cand_loop_eq candidates_of_eq
        split: sum.splits)
next
  fix doc t
  assume h: "nlp ''happy'' = Inr doc \<and> concat (sents doc) = [t] \<and> token_pos t = ''ADJ'' \<and>
          \<not> is_stop t \<and> \<not> is_punct t \<and> token_lemma t = ''happy''"
  have "lower ''happy'' = ''happy''"
    by (simp add: lower_def lower_char_def isupper_def)
  with h show "tokenize_adjective_cell ''happy, happy'' nlp = Inr [''happy'', ''happy'']"
    by (simp add: tokenize_adjective_cell_def adjective_cand_loop_eq candidates_happy)
qed

theorem tokenize_adjective_cell_adjective_list_witness:
  "tokenize_adjective_cell
     ([CHR 0xA0] @ ''Happy ,'' @ [CHR 0x09] @ ''SAD'' @ [CHR 0x85] @ '',, ,'' @ [CHR 0xC9] @ ''mu'')
     word_nlp = Inr [''happy'', ''sad'', CHR 0xE9 # ''mu''] \<and>
   tokenize_adjective_cell ''happy, happy'' word_nlp = Inr [''happy'', ''happy'']"
proof -
  let ?cell =
    "[CHR 0xA0] @ ''Happy ,'' @ [CHR 0x09] @ ''SAD'' @ [CHR 0x85] @ '',, ,'' @ [CHR 0xC9] @ ''mu''"
  have "(case first_error_or_all
             (map word_nlp [piece \<leftarrow> map strip (split (CHR '','') ?cell). piece \<noteq> []]) of
        Inl e \<Rightarrow> Inl e
      | Inr docs \<Rightarrow>
          Inr (concat (map (\<lambda>doc. [lower (token_lemma t). t \<leftarrow> concat (sents doc),
                 token_pos t = ''ADJ'' \<and> \<not> is_stop t \<and> \<not> is_punct t]) docs))) =
        Inr [''happy'', ''sad'', CHR 0xE9 # ''mu'']"
    by code_simp
  with tokenize_adjective_cell_adjective_list [of ?cell word_nlp]
  have 1: "tokenize_adjective_cell ?cell word_nlp = Inr [''happy'', ''sad'', CHR 0xE9 # ''mu'']"
    by simp
  let ?t = "\<lparr>is_punct = False, is_space = False, is_stop = False,
      token_pos = ''ADJ'', token_lemma = ''happy''\<rparr>"
  let ?doc = "\<lparr>sents = [[?t]], ents = [\<lparr>span_text = ''happy''\<rparr>]\<rparr>"
  have "word_nlp ''happy'' = Inr ?doc \<and> concat (sents ?doc) = [?t] \<and> token_pos ?t = ''ADJ'' \<and>
          \<not> is_stop ?t \<and> \<not> is_punct ?t \<and> token_lemma ?t = ''happy''"
    by (simp add: word_nlp_def)
  with tokenize_adjective_cell_adjective_list [of "''happy, happy''" word_nlp]
  have 2: "tokenize_adjective_cell ''happy, happy'' word_nlp = Inr [''happy'', ''happy'']"
    by blast
  from 1 2 show ?thesis by (rule conjI)
qed

section \<open>Properties of counters\<close>

lemma map_of_dict_set: "map_of (dict_set c k v) = (map_of c)(k \<mapsto> v)"
  by (induction c) (auto simp: fun_eq_iff)

lemma counter_get_dict_set:
  "counter_get (dict_set c k v) t = (if t = k then v else counter_get c t)"
  by (simp add: counter_get_def map_of_dict_set)

lemma set_dict_set: "set (dict_set c k v) \<subseteq> insert (k, v) (set c)"
  by (induction c) (auto split: if_splits)

lemma keys_dict_set: "fst ` set (dict_set c k v) = insert k (fst ` set c)"
  by (induction c) (force split: if_splits)+

lemma distinct_dict_set: "distinct (map fst c) \<Longrightarrow> distinct (map fst (dict_set c k v))"
proof (induction c)
  case Nil
  show ?case by simp
next
  case (Cons p c)
  obtain k' v' where p: "p = (k', v')" by (cases p)
  from Cons show ?case
    unfolding p using keys_dict_set [of c k v] by (auto simp: image_iff)
qed

lemma wf_counter_dict_set: "wf_counter c \<Longrightarrow> wf_counter (dict_set c k v)"
  by (simp add: wf_counter_def distinct_dict_set)

lemma counter_get_update_mapping:
  "counter_get (counter_update_mapping c items) t =
     counter_get c t + (\<Sum>(k, n)\<leftarrow>items. if k = t then n else 0)"
proof (induction items arbitrary: c)
  case Nil
  show ?case by simp
next
  case (Cons p items)
  obtain k n where p: "p = (k, n)" by (cases p)
  show ?case
    unfolding p by (simp add: Cons.IH counter_get_dict_set)
qed

lemma sum_entries_absent:
  "t \<notin> fst ` set items \<Longrightarrow> (\<Sum>(k, n)\<leftarrow>items. if k = t then n else 0) = (0::int)"
  by (induction items) (auto simp: image_iff)

lemma sum_entries_counter_get:
  "wf_counter items \<Longrightarrow> (\<Sum>(k, n)\<leftarrow>items. if k = t then n else 0) = counter_get items t"
proof (induction items)
  case Nil
  show ?case by (simp add: counter_get_def)
next
  case (Cons p items)
  obtain k n where p: "p = (k, n)" by (cases p)
  from Cons.prems have d: "k \<notin> fst ` set items" and wf: "wf_counter items"
    by (auto simp: wf_counter_def p)
  show ?case
  proof (cases "k = t")
    case True
    with d sum_entries_absent [of t items] show ?thesis
      by (simp add: p counter_get_def)
  next
    case False
    with Cons.IH [OF wf] show ?thesis
      by (simp add: p counter_get_def)
  qed
qed

lemma counter_update_mapping_adds:
  "wf_counter items \<Longrightarrow>
   counter_get (counter_update_mapping c items) t = counter_get c t + counter_get items t"
  by (simp add: counter_get_update_mapping sum_entries_counter_get)

lemma rank_loop_overall:
  "rank_loop counters columns (sd, ov, m) = Inr (sd', ov', m') \<Longrightarrow>
   (\<forall>col\<in>set columns. \<forall>c. counters col = Some c \<longrightarrow> wf_counter c) \<Longrightarrow>
   counter_get ov' t = counter_get ov t + (\<Sum>col\<leftarrow>columns. column_count counters col t)"
proof (induction columns arbitrary: sd ov m)
  case Nil
  then show ?case by simp
next
  case (Cons col columns)
  from Cons.prems(1) obtain c where c: "counters col = Some c"
    by (cases "counters col") auto
  from Cons.prems(2) c have wf: "wf_counter c" by simp
  from Cons.prems(1) c have
    "rank_loop counters columns
       (sd(col \<mapsto> get_sorted_list c), counter_update_mapping ov c,
        max m (length (get_sorted_list c))) = Inr (sd', ov', m')"
    by (simp add: Let_def)
  from Cons.IH [OF this] Cons.prems(2)
  show ?case
    by (simp add: counter_update_mapping_adds [OF wf] column_count_def c)
qed

lemma rank_loop_succeeds:
  "(\<forall>col\<in>set columns. counters col \<noteq> None) \<Longrightarrow> \<exists>st. rank_loop counters columns st0 = Inr st"
proof (induction columns arbitrary: st0)
  case Nil
  show ?case by (cases st0) auto
next
  case (Cons col columns)
  obtain sd ov m where st0: "st0 = (sd, ov, m)" by (metis prod_cases3)
  from Cons.prems obtain c where c: "counters col = Some c" by auto
  from Cons.prems have "\<forall>col\<in>set columns. counters col \<noteq> None" by simp
  from Cons.IH [OF this] show ?case
    unfolding st0 by (simp add: c Let_def)
qed

text \<open>
  C1. When every designated column has a counter (a dict, so with distinct keys), the
  first loop of the table builder ends without an exception and its \<^verbatim>\<open>overall\<close> counter
  is the coordinate-wise sum of the columns' counters: the overall count of every token
  \<open>t\<close> is the sum, over the list of designated columns, of the count of \<open>t\<close> in the
  column's counter; for columns named once each this is the sum over the set of columns.
\<close>

theorem overall_counter_is_sum:
  assumes "\<forall>col\<in>set columns. \<exists>c. counters col = Some c \<and> wf_counter c"
  shows "\<exists>sorted_data overall max_length.
           rank_loop counters columns (Map.empty, [], 0) = Inr (sorted_data, overall, max_length) \<and>
           (\<forall>t. counter_get overall t = (\<Sum>col\<leftarrow>columns. column_count counters col t)) \<and>
           (distinct columns \<longrightarrow>
              (\<forall>t. counter_get overall t = (\<Sum>col\<in>set columns. column_count counters col t)))"
proof -
  from assms have "\<forall>col\<in>set columns. counters col \<noteq> None" by auto
  from rank_loop_succeeds [OF this, of "(Map.empty, [], 0)"]
  obtain sd ov m where r: "rank_loop counters columns (Map.empty, [], 0) = Inr (sd, ov, m)"
    by (metis prod_cases3)
  from assms have wf: "\<forall>col\<in>set columns. \<forall>c. counters col = Some c \<longrightarrow> wf_counter c" by auto
  have s: "counter_get ov t = (\<Sum>col\<leftarrow>columns. column_count counters col t)" for t
    using rank_loop_overall [OF r wf, of t] by (simp add: counter_get_def)
  have "distinct columns \<Longrightarrow>
      counter_get ov t = (\<Sum>col\<in>set columns. column_count counters col t)" for t
    using s [of t] by (simp add: sum_list_distinct_conv_sum_set)
  with r s show ?thesis by blast
qed

theorem overall_counter_is_sum_witness:
  "\<exists>sorted_data overall max_length.
     rank_loop example_counters [''c1'', ''c2''] (Map.empty, [], 0)
       = Inr (sorted_data, overall, max_length) \<and>
     counter_get overall ''x'' = 4 \<and> counter_get overall ''y'' = 2 \<and>
     counter_get overall ''z'' = 0"
proof -
  have "\<forall>col\<in>set [''c1'', ''c2'']. \<exists>c. example_counters col = Some c \<and> wf_counter c"
    by (simp add: example_counters_def wf_counter_def)
  from overall_counter_is_sum [OF this] obtain sd ov m where
    r: "rank_loop example_counters [''c1'', ''c2''] (Map.empty, [], 0) = Inr (sd, ov, m)" and
    s: "\<forall>t. counter_get ov t = (\<Sum>col\<leftarrow>[''c1'', ''c2'']. column_count example_counters col t)"
    by blast
  from s have "counter_get ov ''x'' = 4" "counter_get ov ''y'' = 2" "counter_get ov ''z'' = 0"
    by (simp_all add: column_count_def example_counters_def counter_get_def)
  with r show ?thesis by blast
qed

section \<open>Properties of the aggregation\<close>

lemma counter_get_nonneg:
  "\<forall>(t, n)\<in>set c. 1 \<le> n \<Longrightarrow> 0 \<le> counter_get c t"
proof (cases "map_of c t")
  case None
  then show ?thesis by (simp add: counter_get_def)
next
  case (Some n)
  assume pos: "\<forall>(t, n)\<in>set c. 1 \<le> n"
  from Some have "(t, n) \<in> set c" by (rule map_of_SomeD)
  with pos have "1 \<le> n" by auto
  with Some show ?thesis by (simp add: counter_get_def)
qed

lemma counter_update_tokens_positive:
  "\<forall>(t, n)\<in>set c. 1 \<le> n \<Longrightarrow> \<forall>(t, n)\<in>set (counter_update_tokens c tokens). 1 \<le> n"
proof (induction tokens arbitrary: c)
  case Nil
  then show ?case by simp
next
  case (Cons elem tokens)
  have "\<forall>(t, n)\<in>set (dict_set c elem (counter_get c elem + 1)). 1 \<le> n"
    using set_dict_set [of c elem "counter_get c elem + 1"] Cons.prems
      counter_get_nonneg [OF Cons.prems, of elem]
    by auto
  from Cons.IH [OF this] show ?case by simp
qed

lemma counter_update_tokens_wf:
  "wf_counter c \<Longrightarrow> wf_counter (counter_update_tokens c tokens)"
  by (induction tokens arbitrary: c) (auto simp: wf_counter_dict_set)

lemma counter_update_tokens_keys:
  "fst ` set (counter_update_tokens c tokens) = fst ` set c \<union> set tokens"
  by (induction tokens arbitrary: c) (auto simp: keys_dict_set)

lemma row_loop_ok:
  "row_loop tf nlp row columns counters = Inr counters' \<Longrightarrow> counters_ok counters \<Longrightarrow>
   counters_ok counters'"
proof (induction columns arbitrary: counters)
  case Nil
  then show ?case by simp
next
  case (Cons col columns)
  show ?case
  proof (cases "row col")
    case None
    with Cons.prems show ?thesis by simp
  next
    case (Some cell)
    show ?thesis
    proof (cases cell)
      case Missing
      with Some Cons show ?thesis by simp
    next
      case (Text s)
      with Some Cons.prems(1) obtain tokens c where
        t: "tf s nlp = Inr tokens" and c: "counters col = Some c" and
        r: "row_loop tf nlp row columns (counters(col \<mapsto> counter_update_tokens c tokens))
              = Inr counters'"
        by (auto split: sum.splits option.splits)
      from Cons.prems(2) c have "wf_counter c" "\<forall>(t, n)\<in>set c. 1 \<le> n"
        by (auto simp: counters_ok_def)
      then have "counters_ok (counters(col \<mapsto> counter_update_tokens c tokens))"
        using Cons.prems(2) counter_update_tokens_wf [of c tokens]
          counter_update_tokens_positive [of c tokens]
        by (auto simp: counters_ok_def)
      from Cons.IH [OF r this] show ?thesis .
    qed
  qed
qed

lemma data_loop_ok:
  "data_loop tf nlp data columns counters = Inr counters' \<Longrightarrow> counters_ok counters \<Longrightarrow>
   counters_ok counters'"
proof (induction data arbitrary: counters)
  case Nil
  then show ?case by simp
next
  case (Cons row data)
  from Cons.prems(1) obtain mid where
    m: "row_loop tf nlp row columns counters = Inr mid" and
    d: "data_loop tf nlp data columns mid = Inr counters'"
    by (auto split: sum.splits)
  from Cons.IH [OF d row_loop_ok [OF m Cons.prems(2)]] show ?case .
qed

lemma init_counters_fold:
  "fold (\<lambda>col counters. counters(col \<mapsto> [])) columns m col =
     (if col \<in> set columns then Some [] else m col)"
  by (induction columns arbitrary: m) auto

lemma init_counters_apply:
  "init_counters columns col = (if col \<in> set columns then Some [] else None)"
  by (simp add: init_counters_def init_counters_fold)

lemma init_counters_ok: "counters_ok (init_counters columns)"
  by (auto simp: counters_ok_def init_counters_apply wf_counter_def split: if_splits)

lemma compute_counters_ok:
  "compute_counters data columns tf nlp = Inr counters \<Longrightarrow> counters_ok counters"
  unfolding compute_counters_def by (rule data_loop_ok [OF _ init_counters_ok])

text \<open>
  C7. Every entry of every counter that the aggregator returns has a count of at
  least 1, whatever the table, the designated columns, the tokenizer and the model.
\<close>

theorem compute_counters_counts_positive:
  "compute_counters data columns tokenize_func nlp = Inr counters \<Longrightarrow>
   counters col = Some c \<Longrightarrow> (t, n) \<in> set c \<Longrightarrow> 1 \<le> n"
  using compute_counters_ok [of data columns tokenize_func nlp counters]
  by (fastforce simp: counters_ok_def)

lemma example_compute_counters:
  "compute_counters example_data [''c1'', ''c2''] tokenize_adjective_cell word_nlp =
     Inr [''c1'' \<mapsto> [(''happy'', 2), (''sad'', 1)], ''c2'' \<mapsto> [(''happy'', 1)]]"
  by (simp add: compute_counters_def example_data_def init_counters_def
      tokenize_adjective_cell_def candidates_of_def strip_def isspace_def word_nlp_def
      lower_def lower_char_def isupper_def counter_get_def)

theorem compute_counters_counts_positive_witness:
  "compute_counters example_data [''c1'', ''c2''] tokenize_adjective_cell word_nlp =
     Inr [''c1'' \<mapsto> [(''happy'', 2), (''sad'', 1)], ''c2'' \<mapsto> [(''happy'', 1)]] \<and>
   (1::int) \<le> 2"
  using compute_counters_counts_positive [OF example_compute_counters, of "''c1''"
      "[(''happy'', 2), (''sad'', 1)]" "''happy''" 2]
    example_compute_counters
  by simp

lemma row_loop_all_missing:
  "\<forall>col\<in>set columns. row col = Some Missing \<Longrightarrow>
   row_loop tf nlp row columns counters = Inr counters"
  by (induction columns) auto

lemma data_loop_append:
  "data_loop tf nlp (before @ after) columns counters =
     (case data_loop tf nlp before columns counters of
        Inl e \<Rightarrow> Inl e
      | Inr counters' \<Rightarrow> data_loop tf nlp after columns counters')"
  by (induction before arbitrary: counters) (auto split: sum.splits)

lemma data_loop_insert_missing:
  assumes "\<forall>col\<in>set columns. row col = Some Missing"
  shows "data_loop tf nlp (before @ row # after) columns counters =
         data_loop tf nlp (before @ after) columns counters"
  by (simp add: data_loop_append row_loop_all_missing [OF assms] split: sum.splits)

text \<open>
  C6. A missing cell is skipped: the loop over the columns of a row goes on with the
  counters as they are. So a row added anywhere in the table whose designated cells are
  all missing changes nothing: the aggregator returns the same counters, or raises the
  same exception; the overall counter, which the table builder computes from these
  counters alone, is then the same too.
\<close>

theorem missing_cells_change_nothing:
  "(row col = Some Missing \<longrightarrow>
      row_loop tokenize_func nlp row (col # columns) counters =
      row_loop tokenize_func nlp row columns counters) \<and>
   ((\<forall>col\<in>set columns. row col = Some Missing) \<longrightarrow>
      compute_counters (before @ row # after) columns tokenize_func nlp =
      compute_counters (before @ after) columns tokenize_func nlp)"
  by (simp add: compute_counters_def data_loop_insert_missing)

theorem missing_cells_change_nothing_witness:
  "compute_counters
     (example_data @ [[''c1'' \<mapsto> Missing, ''c2'' \<mapsto> Missing]]) [''c1'', ''c2'']
     tokenize_adjective_cell word_nlp =
   compute_counters example_data [''c1'', ''c2''] tokenize_adjective_cell word_nlp \<and>
   compute_counters example_data [''c1'', ''c2''] tokenize_adjective_cell word_nlp =
     Inr [''c1'' \<mapsto> [(''happy'', 2), (''sad'', 1)], ''c2'' \<mapsto> [(''happy'', 1)]] \<and>
   row_loop tokenize_adjective_cell word_nlp [''c1'' \<mapsto> Missing, ''c2'' \<mapsto> Missing]
     [''c1'', ''c2''] Map.empty = Inr Map.empty"
proof -
  let ?row = "[''c1'' \<mapsto> Missing, ''c2'' \<mapsto> Missing] :: row"
  have m: "\<forall>col\<in>set [''c1'', ''c2'']. ?row col = Some Missing"
    by simp
  have m1: "?row ''c1'' = Some Missing" and m2: "?row ''c2'' = Some Missing"
    by simp_all
  from missing_cells_change_nothing
    [of ?row "''c1''" tokenize_adjective_cell word_nlp "[''c1'', ''c2'']" Map.empty
      example_data "[]"] m
  have a: "compute_counters (example_data @ [?row]) [''c1'', ''c2''] tokenize_adjective_cell word_nlp
        = compute_counters example_data [''c1'', ''c2''] tokenize_adjective_cell word_nlp"
    by simp
  from missing_cells_change_nothing
    [of ?row "''c2''" tokenize_adjective_cell word_nlp "[]" Map.empty example_data "[]"] m2
  have "row_loop tokenize_adjective_cell word_nlp ?row [''c2''] Map.empty = Inr Map.empty"
    by simp
  with missing_cells_change_nothing
    [of ?row "''c1''" tokenize_adjective_cell word_nlp "[''c2'']" Map.empty example_data "[]"] m1
  have b: "row_loop tokenize_adjective_cell word_nlp ?row [''c1'', ''c2''] Map.empty = Inr Map.empty"
    by simp
  from a b example_compute_counters show ?thesis by simp
qed

section \<open>Properties of the table builder\<close>

lemma pad_loop_eq:
  "pad_loop words freqs max_length =
     (words @ replicate (max_length - length words) '''',
      freqs @ replicate (max_length - length words) 0)"
proof (induction words freqs max_length rule: pad_loop.induct)
  case (1 words freqs max_length)
  show ?case
  proof (cases "length words < max_length")
    case True
    have more: "x # replicate (max_length - Suc (length words)) x =
        replicate (max_length - length words) x" for x :: 'b
      using True by (simp add: Suc_diff_Suc flip: replicate_Suc)
    have "pad_loop words freqs max_length =
        pad_loop (words @ ['''']) (freqs @ [0]) max_length"
      using True by (subst pad_loop.simps) simp
    also have "\<dots> =
        (words @ '''' # replicate (max_length - Suc (length words)) '''',
         freqs @ 0 # replicate (max_length - Suc (length words)) 0)"
      using "1.IH" [OF True] by simp
    finally show ?thesis
      by (simp only: more)
  next
    case False
    then show ?thesis
      by (subst pad_loop.simps) simp
  qed
qed

lemma pad_loop_right_pad:
  "length freqs = length words \<Longrightarrow>
   pad_loop words freqs n = (right_pad n '''' words, right_pad n 0 freqs)"
  by (simp add: pad_loop_eq right_pad_def)

lemma length_right_pad: "length (right_pad n x xs) = max n (length xs)"
  by (simp add: right_pad_def)

lemma header_Word_inject: "(col @ ''_Word'' = col' @ ''_Word'') = (col = col')"
  by simp

lemma header_Frequency_inject: "(col @ ''_Frequency'' = col' @ ''_Frequency'') = (col = col')"
  by simp

lemma header_Word_Frequency: "col @ ''_Word'' \<noteq> col' @ ''_Frequency''"
proof
  assume "col @ ''_Word'' = col' @ ''_Frequency''"
  then have "last (col @ ''_Word'') = last (col' @ ''_Frequency'')"
    by (rule arg_cong)
  then show False by simp
qed

lemma Max_insert_max:
  "finite S \<Longrightarrow> Max (insert (max m a) S) = Max (insert m (insert a S))" for m :: nat
  by (cases "S = {}") (simp_all add: max.assoc)

lemma rank_loop_state:
  "rank_loop counters columns (sd, ov, m) = Inr (sd', ov', m') \<Longrightarrow>
   (\<forall>col. sd' col = (if col \<in> set columns then Some (ranked_list counters col) else sd col)) \<and>
   m' = Max (insert m ((\<lambda>col. length (ranked_list counters col)) ` set columns))"
proof (induction columns arbitrary: sd ov m)
  case Nil
  then show ?case by simp
next
  case (Cons col columns)
  from Cons.prems obtain c where c: "counters col = Some c"
    by (cases "counters col") auto
  have rl: "ranked_list counters col = get_sorted_list c"
    by (simp add: ranked_list_def c)
  from Cons.prems c have
    "rank_loop counters columns
       (sd(col \<mapsto> get_sorted_list c), counter_update_mapping ov c,
        max m (length (get_sorted_list c))) = Inr (sd', ov', m')"
    by (simp add: Let_def)
  from Cons.IH [OF this] show ?case
    by (simp add: rl Max_insert_max)
qed

lemma fill_loop_succeeds:
  "\<forall>col\<in>set columns. sd col \<noteq> None \<Longrightarrow> \<exists>df'. fill_loop sd columns n df = Inr df'"
proof (induction columns arbitrary: df)
  case Nil
  show ?case by simp
next
  case (Cons col columns)
  from Cons.prems obtain r where r: "sd col = Some r" by auto
  from Cons.prems have "\<forall>col\<in>set columns. sd col \<noteq> None" by simp
  from Cons.IH [OF this] show ?case
    by (simp add: r pad_loop_eq)
qed

lemma fill_loop_step:
  "sd col = Some r \<Longrightarrow>
   fill_loop sd (col # columns) n df =
     fill_loop sd columns n
       (dict_set (dict_set df (col @ ''_Word'') (StrCol (right_pad n '''' (map fst r))))
          (col @ ''_Frequency'') (IntCol (right_pad n 0 (map snd r))))"
  by (simp add: pad_loop_right_pad)

lemma fill_loop_headers:
  "fill_loop sd columns n df = Inr df' \<Longrightarrow>
   fst ` set df' = fst ` set df \<union> (\<Union>col\<in>set columns. {col @ ''_Word'', col @ ''_Frequency''})"
proof (induction columns arbitrary: df)
  case Nil
  then show ?case by simp
next
  case (Cons col columns)
  from Cons.prems obtain r where r: "sd col = Some r"
    by (cases "sd col") auto
  from Cons.prems have "fill_loop sd columns n
       (dict_set (dict_set df (col @ ''_Word'') (StrCol (right_pad n '''' (map fst r))))
          (col @ ''_Frequency'') (IntCol (right_pad n 0 (map snd r)))) = Inr df'"
    by (simp only: fill_loop_step [of sd col r, OF r])
  from Cons.IH [OF this] show ?case
    by (simp add: keys_dict_set) blast
qed

lemma fill_loop_distinct:
  "fill_loop sd columns n df = Inr df' \<Longrightarrow> distinct (map fst df) \<Longrightarrow> distinct (map fst df')"
proof (induction columns arbitrary: df)
  case Nil
  then show ?case by simp
next
  case (Cons col columns)
  from Cons.prems obtain r where r: "sd col = Some r"
    by (cases "sd col") auto
  from Cons.prems have "fill_loop sd columns n
       (dict_set (dict_set df (col @ ''_Word'') (StrCol (right_pad n '''' (map fst r))))
          (col @ ''_Frequency'') (IntCol (right_pad n 0 (map snd r)))) = Inr df'"
    by (simp only: fill_loop_step [of sd col r, OF r])
  from Cons.IH [OF this] Cons.prems(2) show ?case
    by (simp add: distinct_dict_set)
qed

lemma fill_loop_lengths:
  "fill_loop sd columns n df = Inr df' \<Longrightarrow>
   \<forall>col\<in>set columns. \<forall>r. sd col = Some r \<longrightarrow> length r \<le> n \<Longrightarrow>
   \<forall>(h, c)\<in>set df. column_length c = n \<Longrightarrow>
   \<forall>(h, c)\<in>set df'. column_length c = n"
proof (induction columns arbitrary: df)
  case Nil
  then show ?case by simp
next
  case (Cons col columns)
  from Cons.prems obtain r where r: "sd col = Some r"
    by (cases "sd col") auto
  let ?w = "StrCol (right_pad n '''' (map fst r))"
  let ?f = "IntCol (right_pad n 0 (map snd r))"
  let ?df1 = "dict_set df (col @ ''_Word'') ?w"
  let ?df2 = "dict_set ?df1 (col @ ''_Frequency'') ?f"
  from Cons.prems(1) have step: "fill_loop sd columns n ?df2 = Inr df'"
    by (simp only: fill_loop_step [of sd col r, OF r])
  from Cons.prems(2) r have "length r \<le> n" by simp
  then have "column_length ?w = n" "column_length ?f = n"
    by (simp_all add: length_right_pad)
  with Cons.prems(3) set_dict_set [of df "col @ ''_Word''" ?w]
  have "\<forall>(h, c)\<in>set ?df1. column_length c = n" by auto
  with \<open>column_length ?f = n\<close> set_dict_set [of ?df1 "col @ ''_Frequency''" ?f]
  have "\<forall>(h, c)\<in>set ?df2. column_length c = n" by auto
  with Cons.IH [OF step] Cons.prems(2) show ?case by simp
qed

lemma fill_loop_other:
  "fill_loop sd columns n df = Inr df' \<Longrightarrow>
   \<forall>col\<in>set columns. h \<noteq> col @ ''_Word'' \<and> h \<noteq> col @ ''_Frequency'' \<Longrightarrow>
   map_of df' h = map_of df h"
proof (induction columns arbitrary: df)
  case Nil
  then show ?case by simp
next
  case (Cons col columns)
  from Cons.prems obtain r where r: "sd col = Some r"
    by (cases "sd col") auto
  from Cons.prems(1) have step: "fill_loop sd columns n
       (dict_set (dict_set df (col @ ''_Word'') (StrCol (right_pad n '''' (map fst r))))
          (col @ ''_Frequency'') (IntCol (right_pad n 0 (map snd r)))) = Inr df'"
    by (simp only: fill_loop_step [of sd col r, OF r])
  from Cons.IH [OF step] Cons.prems(2) show ?case
    by (simp add: map_of_dict_set)
qed

lemma fill_loop_lookup:
  "fill_loop sd columns n df = Inr df' \<Longrightarrow> col \<in> set columns \<Longrightarrow> sd col = Some r \<Longrightarrow>
   map_of df' (col @ ''_Word'') = Some (StrCol (right_pad n '''' (map fst r))) \<and>
   map_of df' (col @ ''_Frequency'') = Some (IntCol (right_pad n 0 (map snd r)))"
proof (induction columns arbitrary: df)
  case Nil
  then show ?case by simp
next
  case (Cons c columns)
  from Cons.prems obtain r' where r': "sd c = Some r'"
    by (cases "sd c") auto
  let ?df2 = "dict_set (dict_set df (c @ ''_Word'') (StrCol (right_pad n '''' (map fst r'))))
          (c @ ''_Frequency'') (IntCol (right_pad n 0 (map snd r')))"
  from Cons.prems(1) have step: "fill_loop sd columns n ?df2 = Inr df'"
    by (simp only: fill_loop_step [of sd c r', OF r'])
  show ?case
  proof (cases "col \<in> set columns")
    case True
    from Cons.IH [OF step True Cons.prems(3)] show ?thesis .
  next
    case False
    with Cons.prems(2) have eq: "c = col" by simp
    with r' Cons.prems(3) have rr: "r' = r" by simp
    from False have
      "\<forall>x\<in>set columns. col @ ''_Word'' \<noteq> x @ ''_Word'' \<and> col @ ''_Word'' \<noteq> x @ ''_Frequency''"
      using header_Word_Frequency by auto
    from fill_loop_other [OF step this]
    have w: "map_of df' (col @ ''_Word'') = map_of ?df2 (col @ ''_Word'')" .
    from False have
      "\<forall>x\<in>set columns. col @ ''_Frequency'' \<noteq> x @ ''_Word'' \<and>
         col @ ''_Frequency'' \<noteq> x @ ''_Frequency''"
      using header_Word_Frequency [of _ col] by auto
    from fill_loop_other [OF step this]
    have f: "map_of df' (col @ ''_Frequency'') = map_of ?df2 (col @ ''_Frequency'')" .
    from w f show ?thesis
      by (simp add: map_of_dict_set eq rr)
  qed
qed

lemma Max_insert_zero:
  "finite S \<Longrightarrow> max (Max (insert 0 S)) a = Max (insert a S)" for a :: nat
  by (cases "S = {}") (simp_all add: max.commute)

lemma same_lengths_remdups:
  assumes "\<forall>(h, c)\<in>set d. column_length c = n"
  shows "length (remdups (map (\<lambda>(header, column). column_length column) d)) \<le> 1"
proof -
  have "set (map (\<lambda>(header, column). column_length column) d) \<subseteq> {n}"
    using assms by auto
  then have "card (set (map (\<lambda>(header, column). column_length column) d)) \<le> card {n}"
    by (intro card_mono) simp_all
  then show ?thesis
    by (simp add: length_remdups_card_conv)
qed

lemma pd_DataFrame_same_lengths:
  "\<forall>(h, c)\<in>set d. column_length c = n \<Longrightarrow> pd_DataFrame d = Inr d"
  using same_lengths_remdups [of d n] by (simp add: pd_DataFrame_def)

lemma header_Word_Overall: "col \<noteq> ''Overall'' \<Longrightarrow>
    col @ ''_Word'' \<noteq> ''Overall_Word'' \<and> col @ ''_Word'' \<noteq> ''Overall_Frequency'' \<and>
    col @ ''_Frequency'' \<noteq> ''Overall_Word'' \<and> col @ ''_Frequency'' \<noteq> ''Overall_Frequency''"
  using header_Word_inject [of col "''Overall''"] header_Frequency_inject [of col "''Overall''"]
    header_Word_Frequency [of col "''Overall''"] header_Word_Frequency [of "''Overall''" col]
  by auto

lemma build_master_dataframe_result:
  assumes r: "rank_loop counters columns (Map.empty, [], 0) = Inr (sd, ov, m)"
  defines "n \<equiv> Max (set (map length (get_sorted_list ov # map (ranked_list counters) columns)))"
  shows "\<exists>df'. fill_loop sd columns n [] = Inr df' \<and>
           build_master_dataframe counters columns =
             Inr (dict_set (dict_set df' ''Overall_Word''
                    (StrCol (right_pad n '''' (map fst (get_sorted_list ov)))))
                  ''Overall_Frequency'' (IntCol (right_pad n 0 (map snd (get_sorted_list ov))))) \<and>
           (\<forall>(h, c)\<in>set df'. column_length c = n) \<and>
           (\<forall>col\<in>set columns. sd col = Some (ranked_list counters col)) \<and>
           length (get_sorted_list ov) \<le> n"
proof -
  from rank_loop_state [OF r] have
    sd: "\<forall>col. sd col = (if col \<in> set columns then Some (ranked_list counters col) else None)"
    and m: "m = Max (insert 0 ((\<lambda>col. length (ranked_list counters col)) ` set columns))"
    by simp_all
  have n: "max m (length (get_sorted_list ov)) = n"
    unfolding n_def m by (simp add: Max_insert_zero image_image)
  have le: "\<forall>col\<in>set columns. \<forall>r. sd col = Some r \<longrightarrow> length r \<le> n"
    unfolding n_def using sd by (auto intro!: Max_ge)
  have ov: "length (get_sorted_list ov) \<le> n"
    using n by simp
  from sd have "\<forall>col\<in>set columns. sd col \<noteq> None" by simp
  from fill_loop_succeeds [OF this] obtain df' where f: "fill_loop sd columns n [] = Inr df'"
    by blast
  from fill_loop_lengths [OF f le] have l: "\<forall>(h, c)\<in>set df'. column_length c = n"
    by simp
  let ?w = "StrCol (right_pad n '''' (map fst (get_sorted_list ov)))"
  let ?f = "IntCol (right_pad n 0 (map snd (get_sorted_list ov)))"
  let ?df1 = "dict_set df' ''Overall_Word'' ?w"
  let ?df2 = "dict_set ?df1 ''Overall_Frequency'' ?f"
  from ov have "column_length ?w = n" "column_length ?f = n"
    by (simp_all add: length_right_pad)
  with l set_dict_set [of df' "''Overall_Word''" ?w]
  have "\<forall>(h, c)\<in>set ?df1. column_length c = n" by auto
  with \<open>column_length ?f = n\<close> set_dict_set [of ?df1 "''Overall_Frequency''" ?f]
  have "\<forall>(h, c)\<in>set ?df2. column_length c = n" by auto
  then have "pd_DataFrame ?df2 = Inr ?df2"
    by (rule pd_DataFrame_same_lengths)
  then have "build_master_dataframe counters columns = Inr ?df2"
    by (simp add: build_master_dataframe_def r Let_def n f pad_loop_right_pad)
  with f l sd ov show ?thesis by simp
qed

text \<open>
  C2. When every designated column has a counter, the table builder returns a table (no
  exception) in which all columns have one length, the greatest of the lengths of the
  columns' ranked lists and of the overall ranked list. The headers are distinct and are
  exactly \<^verbatim>\<open>col_Word\<close> and \<^verbatim>\<open>col_Frequency\<close> for the designated columns and
  \<^verbatim>\<open>Overall_Word\<close> and \<^verbatim>\<open>Overall_Frequency\<close>. Under \<^verbatim>\<open>col_Word\<close> stand the tokens of the
  column's ranked list followed only by empty strings, under \<^verbatim>\<open>col_Frequency\<close> its counts
  followed only by zeros, and likewise for the overall pair. (A designated column that is
  itself named \<^verbatim>\<open>Overall\<close> shares its two headers with the overall pair, which is written
  last.)
\<close>

theorem build_master_dataframe_padded:
  assumes "\<forall>col\<in>set columns. counters col \<noteq> None"
  shows "\<exists>sorted_data overall m df.
     rank_loop counters columns (Map.empty, [], 0) = Inr (sorted_data, overall, m) \<and>
     build_master_dataframe counters columns = Inr df \<and>
     (let n = Max (set (map length
                (get_sorted_list overall # map (ranked_list counters) columns)))
      in (\<forall>(header, column)\<in>set df. column_length column = n) \<and>
         distinct (map fst df) \<and>
         fst ` set df = (\<Union>col\<in>set columns. {col @ ''_Word'', col @ ''_Frequency''}) \<union>
                        {''Overall_Word'', ''Overall_Frequency''} \<and>
         (\<forall>col\<in>set columns. col \<noteq> ''Overall'' \<longrightarrow>
            map_of df (col @ ''_Word'') =
              Some (StrCol (right_pad n '''' (map fst (ranked_list counters col)))) \<and>
            map_of df (col @ ''_Frequency'') =
              Some (IntCol (right_pad n 0 (map snd (ranked_list counters col))))) \<and>
         map_of df ''Overall_Word'' =
           Some (StrCol (right_pad n '''' (map fst (get_sorted_list overall)))) \<and>
         map_of df ''Overall_Frequency'' =
           Some (IntCol (right_pad n 0 (map snd (get_sorted_list overall)))))"
proof -
  from rank_loop_succeeds [OF assms, of "(Map.empty, [], 0)"]
  obtain sd ov m where r: "rank_loop counters columns (Map.empty, [], 0) = Inr (sd, ov, m)"
    by (metis prod_cases3)
  define n where
    "n = Max (set (map length (get_sorted_list ov # map (ranked_list counters) columns)))"
  let ?w = "StrCol (right_pad n '''' (map fst (get_sorted_list ov)))"
  let ?f = "IntCol (right_pad n 0 (map snd (get_sorted_list ov)))"
  from build_master_dataframe_result [OF r] obtain df' where
    f: "fill_loop sd columns n [] = Inr df'" and
    b: "build_master_dataframe counters columns =
          Inr (dict_set (dict_set df' ''Overall_Word'' ?w) ''Overall_Frequency'' ?f)" and
    l: "\<forall>(h, c)\<in>set df'. column_length c = n" and
    sd: "\<forall>col\<in>set columns. sd col = Some (ranked_list counters col)" and
    ov: "length (get_sorted_list ov) \<le> n"
    unfolding n_def by blast
  let ?df1 = "dict_set df' ''Overall_Word'' ?w"
  let ?df = "dict_set ?df1 ''Overall_Frequency'' ?f"
  from ov have "column_length ?w = n" "column_length ?f = n"
    by (simp_all add: length_right_pad)
  with l set_dict_set [of df' "''Overall_Word''" ?w]
  have "\<forall>(h, c)\<in>set ?df1. column_length c = n" by auto
  with \<open>column_length ?f = n\<close> set_dict_set [of ?df1 "''Overall_Frequency''" ?f]
  have lengths: "\<forall>(header, column)\<in>set ?df. column_length column = n" by auto
  from fill_loop_distinct [OF f] have dist: "distinct (map fst ?df)"
    by (simp add: distinct_dict_set)
  from fill_loop_headers [OF f] have headers:
    "fst ` set ?df = (\<Union>col\<in>set columns. {col @ ''_Word'', col @ ''_Frequency''}) \<union>
                        {''Overall_Word'', ''Overall_Frequency''}"
    by (simp add: keys_dict_set) blast
  have cols: "map_of ?df (col @ ''_Word'') =
              Some (StrCol (right_pad n '''' (map fst (ranked_list counters col)))) \<and>
            map_of ?df (col @ ''_Frequency'') =
              Some (IntCol (right_pad n 0 (map snd (ranked_list counters col))))"
    if "col \<in> set columns" "col \<noteq> ''Overall''" for col
  proof -
    from sd that(1) have "sd col = Some (ranked_list counters col)" by simp
    from fill_loop_lookup [OF f that(1) this] header_Word_Overall [OF that(2)]
    show ?thesis by (simp add: map_of_dict_set)
  qed
  have overall: "map_of ?df ''Overall_Word'' = Some ?w" "map_of ?df ''Overall_Frequency'' = Some ?f"
    by (simp_all add: map_of_dict_set)
  from cols have cols': "\<forall>col\<in>set columns. col \<noteq> ''Overall'' \<longrightarrow>
            map_of ?df (col @ ''_Word'') =
              Some (StrCol (right_pad n [] (map fst (ranked_list counters col)))) \<and>
            map_of ?df (col @ ''_Frequency'') =
              Some (IntCol (right_pad n 0 (map snd (ranked_list counters col))))"
    by (intro ballI impI) 
  show ?thesis
  proof (intro exI conjI)
    show "rank_loop counters columns (Map.empty, [], 0) = Inr (sd, ov, m)"
      by (rule r)
    show "build_master_dataframe counters columns = Inr ?df"
      by (rule b)
    from lengths dist headers cols' overall
    show "let n = Max (set (map length
                (get_sorted_list ov # map (ranked_list counters) columns)))
      in (\<forall>(header, column)\<in>set ?df. column_length column = n) \<and>
         distinct (map fst ?df) \<and>
         fst ` set ?df = (\<Union>col\<in>set columns. {col @ ''_Word'', col @ ''_Frequency''}) \<union>
                        {''Overall_Word'', ''Overall_Frequency''} \<and>
         (\<forall>col\<in>set columns. col \<noteq> ''Overall'' \<longrightarrow>
            map_of ?df (col @ ''_Word'') =
              Some (StrCol (right_pad n [] (map fst (ranked_list counters col)))) \<and>
            map_of ?df (col @ ''_Frequency'') =
              Some (IntCol (right_pad n 0 (map snd (ranked_list counters col))))) \<and>
         map_of ?df ''Overall_Word'' =
           Some (StrCol (right_pad n [] (map fst (get_sorted_list ov)))) \<and>
         map_of ?df ''Overall_Frequency'' =
           Some (IntCol (right_pad n 0 (map snd (get_sorted_list ov))))"
      unfolding Let_def n_def [symmetric] by - (intro conjI; assumption)
  qed
qed

theorem build_master_dataframe_padded_witness:
  "\<exists>df. build_master_dataframe example_counters [''c1'', ''c2''] = Inr df \<and>
     map_of df ''c1_Word'' = Some (StrCol [''y'', ''x'']) \<and>
     map_of df ''c1_Frequency'' = Some (IntCol [2, 1]) \<and>
     map_of df ''c2_Word'' = Some (StrCol [''x'', '''']) \<and>
     map_of df ''c2_Frequency'' = Some (IntCol [3, 0]) \<and>
     map_of df ''Overall_Word'' = Some (StrCol [''x'', ''y'']) \<and>
     map_of df ''Overall_Frequency'' = Some (IntCol [4, 2])"
proof -
  let ?n = "\<lambda>ov. Max (set (map length
                (get_sorted_list ov # map (ranked_list example_counters) [''c1'', ''c2''])))"
  have "\<forall>col\<in>set [''c1'', ''c2'']. example_counters col \<noteq> None"
    by (simp add: example_counters_def)
  from build_master_dataframe_padded [OF this, unfolded Let_def] obtain sd ov m df where
    r: "rank_loop example_counters [''c1'', ''c2''] (Map.empty, [], 0) = Inr (sd, ov, m)" and
    b: "build_master_dataframe example_counters [''c1'', ''c2''] = Inr df" and
    c: "\<forall>col\<in>set [''c1'', ''c2'']. col \<noteq> ''Overall'' \<longrightarrow>
            map_of df (col @ ''_Word'') =
              Some (StrCol (right_pad (?n ov) '''' (map fst (ranked_list example_counters col)))) \<and>
            map_of df (col @ ''_Frequency'') =
              Some (IntCol (right_pad (?n ov) 0 (map snd (ranked_list example_counters col))))" and
    w: "map_of df ''Overall_Word'' =
           Some (StrCol (right_pad (?n ov) '''' (map fst (get_sorted_list ov))))" and
    f: "map_of df ''Overall_Frequency'' =
           Some (IntCol (right_pad (?n ov) 0 (map snd (get_sorted_list ov))))"
    by (elim exE conjE) (rule that)
  from r have ov: "ov = [(''x'', 4), (''y'', 2)]"
    by (simp add: example_counters_def Let_def counter_get_def)
  have s: "get_sorted_list [(''x'', 4), (''y'', 2)] = [(''x'', 4), (''y'', 2)]"
    "ranked_list example_counters ''c1'' = [(''y'', 2), (''x'', 1)]"
    "ranked_list example_counters ''c2'' = [(''x'', 3)]"
    by (simp_all add: ranked_list_def example_counters_def get_sorted_list_def py_sorted_def)
  have n: "?n ov = 2"
    unfolding ov by (simp add: s)
  from c w f have
     "map_of df ''c1_Word'' = Some (StrCol [''y'', ''x'']) \<and>
     map_of df ''c1_Frequency'' = Some (IntCol [2, 1]) \<and>
     map_of df ''c2_Word'' = Some (StrCol [''x'', '''']) \<and>
     map_of df ''c2_Frequency'' = Some (IntCol [3, 0]) \<and>
     map_of df ''Overall_Word'' = Some (StrCol [''x'', ''y'']) \<and>
     map_of df ''Overall_Frequency'' = Some (IntCol [4, 2])"
    unfolding n unfolding ov by (simp add: s right_pad_def numeral_2_eq_2)
  with b show ?thesis by blast
qed

text \<open>
  C9. With no designated column the table builder raises nothing and returns the table
  of the two overall columns, both empty: a table of zero rows.
\<close>

theorem build_master_dataframe_no_columns:
  "build_master_dataframe counters [] =
     Inr [(''Overall_Word'', StrCol []), (''Overall_Frequency'', IntCol [])]"
  by (simp add: build_master_dataframe_def get_sorted_list_def py_sorted_def pad_loop_eq
      pd_DataFrame_def)

theorem build_master_dataframe_no_columns_witness:
  "build_master_dataframe example_counters [] =
     Inr [(''Overall_Word'', StrCol []), (''Overall_Frequency'', IntCol [])]"
  by (rule build_master_dataframe_no_columns)

lemma example_table:
  "build_master_dataframe [''c1'' \<mapsto> [(''happy'', 2), (''sad'', 1)], ''c2'' \<mapsto> [(''happy'', 1)]]
     [''c1'', ''c2''] =
   Inr [(''c1_Word'', StrCol [''happy'', ''sad'']), (''c1_Frequency'', IntCol [2, 1]),
        (''c2_Word'', StrCol [''happy'', '''']), (''c2_Frequency'', IntCol [1, 0]),
        (''Overall_Word'', StrCol [''happy'', ''sad'']), (''Overall_Frequency'', IntCol [3, 1])]"
  by (simp add: build_master_dataframe_def get_sorted_list_def py_sorted_def pad_loop_eq
      pd_DataFrame_def Let_def counter_get_def)

section \<open>Properties of the pipeline\<close>

lemma row_loop_cong:
  assumes "\<forall>col\<in>set columns. row col = row' col"
    and "\<forall>col\<in>set columns. \<forall>cell. row col = Some (Text cell) \<longrightarrow> tf cell nlp' = tf cell nlp"
  shows "row_loop tf nlp' row' columns counters = row_loop tf nlp row columns counters"
  using assms
proof (induction columns arbitrary: counters)
  case Nil
  show ?case by simp
next
  case (Cons col columns)
  from Cons.prems have r: "row' col = row col" by simp
  from Cons.prems have rest:
    "\<forall>col\<in>set columns. row col = row' col"
    "\<forall>col\<in>set columns. \<forall>cell. row col = Some (Text cell) \<longrightarrow> tf cell nlp' = tf cell nlp"
    by simp_all
  note IH = Cons.IH [OF rest]
  show ?case
  proof (cases "row col")
    case None
    with r show ?thesis by simp
  next
    case (Some cell)
    show ?thesis
    proof (cases cell)
      case Missing
      with Some r IH show ?thesis by simp
    next
      case (Text s)
      with Some Cons.prems(2) have t: "tf s nlp' = tf s nlp" by simp
      show ?thesis
      proof (cases "tf s nlp")
        case (Inl e)
        with Some Text r t show ?thesis by simp
      next
        case (Inr tokens)
        show ?thesis
        proof (cases "counters col")
          case None
          with Some Text r t Inr show ?thesis by simp
        next
          case (Some c)
          have old_run: "row_loop tf nlp row (col # columns) counters =
              row_loop tf nlp row columns (counters(col \<mapsto> counter_update_tokens c tokens))"
            using \<open>row col = Some cell\<close> Text Inr Some by simp
          have new_run: "row_loop tf nlp' row' (col # columns) counters =
              row_loop tf nlp' row' columns (counters(col \<mapsto> counter_update_tokens c tokens))"
            using \<open>row col = Some cell\<close> Text r t Inr Some by simp
          show ?thesis
            unfolding old_run new_run by (rule IH)
        qed
      qed
    qed
  qed
qed

lemma data_loop_cong:
  assumes "list_all2 (\<lambda>row row'. \<forall>col\<in>set columns. row col = row' col) data data'"
    and "\<forall>row\<in>set data. \<forall>col\<in>set columns. \<forall>cell.
           row col = Some (Text cell) \<longrightarrow> tf cell nlp' = tf cell nlp"
  shows "data_loop tf nlp' data' columns counters = data_loop tf nlp data columns counters"
  using assms
proof (induction data data' arbitrary: counters rule: list_all2_induct)
  case Nil
  show ?case by simp
next
  case (Cons row data row' data')
  from Cons.prems have
    "\<forall>col\<in>set columns. \<forall>cell. row col = Some (Text cell) \<longrightarrow> tf cell nlp' = tf cell nlp"
    by simp
  with Cons.hyps(1) have
    "row_loop tf nlp' row' columns counters = row_loop tf nlp row columns counters"
    by (rule row_loop_cong)
  moreover from Cons.prems have
    "\<forall>row\<in>set data. \<forall>col\<in>set columns. \<forall>cell.
           row col = Some (Text cell) \<longrightarrow> tf cell nlp' = tf cell nlp"
    by simp
  note Cons.IH [OF this]
  ultimately show ?case
    by (simp split: sum.splits)
qed

text \<open>
  The aggregator reads the cells of the designated columns and nothing else of the table,
  and the language model only through the tokenizer on the texts of these cells.
\<close>

lemma compute_counters_cong:
  assumes "list_all2 (\<lambda>row row'. \<forall>col\<in>set columns. row col = row' col) data data'"
    and "\<forall>row\<in>set data. \<forall>col\<in>set columns. \<forall>cell.
           row col = Some (Text cell) \<longrightarrow> tf cell nlp' = tf cell nlp"
  shows "compute_counters data' columns tf nlp' = compute_counters data columns tf nlp"
  unfolding compute_counters_def using assms by (rule data_loop_cong)

text \<open>
  The tokenizers consult the language model on the text itself, or on the stripped
  pieces of an adjective cell, and nowhere else.
\<close>

lemma tokenize_description_cong:
  "nlp' text = nlp text \<Longrightarrow> tokenize_description text nlp' = tokenize_description text nlp"
  by (simp add: tokenize_description_def)

lemma tokenize_named_entities_cong:
  "nlp' text = nlp text \<Longrightarrow> tokenize_named_entities text nlp' = tokenize_named_entities text nlp"
  by (simp add: tokenize_named_entities_def)

lemma tokenize_adjective_cell_cong:
  assumes "\<forall>piece\<in>set (candidates_of cell). nlp' piece = nlp piece"
  shows "tokenize_adjective_cell cell nlp' = tokenize_adjective_cell cell nlp"
proof -
  from assms have "map nlp' (candidates_of cell) = map nlp (candidates_of cell)"
    by simp
  then show ?thesis
    unfolding tokenize_adjective_cell_def adjective_cand_loop_eq by (simp only:)
qed

lemma process_and_save_Inr:
  "process_and_save data columns tokenize_func nlp output_filename w = Inr w1 \<Longrightarrow>
   \<exists>counters master_df.
     compute_counters data columns tokenize_func nlp = Inr counters \<and>
     build_master_dataframe counters columns = Inr master_df \<and>
     writable w output_filename \<and>
     w1 = print_line (''Saved: '' @ output_filename)
            (w\<lparr>files := (files w)(output_filename \<mapsto> master_df)\<rparr>)"
  by (auto simp: process_and_save_def to_csv_def split: sum.splits if_splits)

lemma process_and_save_runs:
  "compute_counters data columns tokenize_func nlp = Inr counters \<Longrightarrow>
   build_master_dataframe counters columns = Inr master_df \<Longrightarrow>
   writable w output_filename \<Longrightarrow>
   process_and_save data columns tokenize_func nlp output_filename w =
     Inr (print_line (''Saved: '' @ output_filename)
            (w\<lparr>files := (files w)(output_filename \<mapsto> master_df)\<rparr>))"
  by (simp add: process_and_save_def to_csv_def)

lemma process_and_save_Inl:
  "process_and_save data columns tokenize_func nlp output_filename w = Inl e \<Longrightarrow>
   writable w output_filename \<Longrightarrow>
   compute_counters data columns tokenize_func nlp = Inl e \<or>
   (\<exists>counters. compute_counters data columns tokenize_func nlp = Inr counters \<and>
      build_master_dataframe counters columns = Inl e)"
  by (auto simp: process_and_save_def to_csv_def split: sum.splits if_splits)

lemma process_and_save_fails:
  "compute_counters data columns tokenize_func nlp = Inl e \<or>
   (\<exists>counters. compute_counters data columns tokenize_func nlp = Inr counters \<and>
      build_master_dataframe counters columns = Inl e) \<Longrightarrow>
   process_and_save data columns tokenize_func nlp output_filename w = Inl e"
  by (auto simp: process_and_save_def)

lemma files_print_line: "files (print_line line w) = files w"
  by (simp add: print_line_def)

text \<open>A run that cannot write its file raises \<open>OSError\<close> once the table is built.\<close>

lemma process_and_save_OSError:
  "compute_counters data columns tokenize_func nlp = Inr counters \<Longrightarrow>
   build_master_dataframe counters columns = Inr master_df \<Longrightarrow>
   \<not> writable w output_filename \<Longrightarrow>
   process_and_save data columns tokenize_func nlp output_filename w = Inl (OSError output_filename)"
  by (simp add: process_and_save_def to_csv_def)

text \<open>
  C10. Two runs of the pipeline for the same columns, tokenizer and output file, the
  second on a table and with a language model that are unchanged as far as the pipeline
  reads them: row by row the cells of the designated columns are the same, and on the
  text of each of these cells the tokenizer gets the same from the model. The runs may
  start from any two states of the world. Then
  \<^item> when both runs complete, the output file holds the same table after each of them,
    the table that the table builder makes of the aggregator's counters;
  \<^item> when the first run completes, the second completes wherever it can write its file;
  \<^item> when the first run raises an exception although it could write its file, the
    second raises the same exception;
  \<^item> when the second run starts where the first has ended, it leaves every file as the
    first run left it.
\<close>

theorem process_and_save_reproducible:
  assumes "list_all2 (\<lambda>row row'. \<forall>col\<in>set columns. row col = row' col) data data'"
    and "\<forall>row\<in>set data. \<forall>col\<in>set columns. \<forall>cell.
           row col = Some (Text cell) \<longrightarrow> tokenize_func cell nlp' = tokenize_func cell nlp"
  shows
   "(\<forall>w1 w2. process_and_save data columns tokenize_func nlp output_filename w = Inr w1 \<and>
        process_and_save data' columns tokenize_func nlp' output_filename w' = Inr w2 \<longrightarrow>
        files w2 output_filename = files w1 output_filename \<and>
        (\<exists>counters master_df.
            compute_counters data columns tokenize_func nlp = Inr counters \<and>
            build_master_dataframe counters columns = Inr master_df \<and>
            files w1 output_filename = Some master_df)) \<and>
    (\<forall>w1. process_and_save data columns tokenize_func nlp output_filename w = Inr w1 \<and>
        writable w' output_filename \<longrightarrow>
        (\<exists>w2. process_and_save data' columns tokenize_func nlp' output_filename w' = Inr w2)) \<and>
    (\<forall>e. process_and_save data columns tokenize_func nlp output_filename w = Inl e \<and>
        writable w output_filename \<longrightarrow>
        process_and_save data' columns tokenize_func nlp' output_filename w' = Inl e) \<and>
    (\<forall>w1 w2. process_and_save data columns tokenize_func nlp output_filename w = Inr w1 \<and>
        process_and_save data' columns tokenize_func nlp' output_filename w1 = Inr w2 \<longrightarrow>
        files w2 = files w1)"
proof -
  have cc: "compute_counters data' columns tokenize_func nlp' =
      compute_counters data columns tokenize_func nlp"
    using assms by (rule compute_counters_cong)
  have both: "files w2 output_filename = files w1 output_filename \<and>
        (\<exists>counters master_df.
            compute_counters data columns tokenize_func nlp = Inr counters \<and>
            build_master_dataframe counters columns = Inr master_df \<and>
            files w1 output_filename = Some master_df) \<and>
        files w2 = (files v)(output_filename \<mapsto> the (files w1 output_filename))"
    if r1: "process_and_save data columns tokenize_func nlp output_filename w = Inr w1"
      and r2: "process_and_save data' columns tokenize_func nlp' output_filename v = Inr w2"
    for w1 w2 v
  proof -
    from process_and_save_Inr [OF r1] obtain counters master_df where
      c: "compute_counters data columns tokenize_func nlp = Inr counters" and
      b: "build_master_dataframe counters columns = Inr master_df" and
      w1: "w1 = print_line (''Saved: '' @ output_filename)
            (w\<lparr>files := (files w)(output_filename \<mapsto> master_df)\<rparr>)"
      by blast
    from process_and_save_Inr [OF r2] obtain counters' master_df' where
      c': "compute_counters data' columns tokenize_func nlp' = Inr counters'" and
      b': "build_master_dataframe counters' columns = Inr master_df'" and
      w2: "w2 = print_line (''Saved: '' @ output_filename)
            (v\<lparr>files := (files v)(output_filename \<mapsto> master_df')\<rparr>)"
      by blast
    from c c' cc have "counters' = counters" by simp
    with b b' have same: "master_df' = master_df" by simp
    from w1 have f1: "files w1 output_filename = Some master_df"
      by (simp add: files_print_line)
    from w2 same have f2: "files w2 = (files v)(output_filename \<mapsto> master_df)"
      by (simp add: files_print_line)
    from f1 f2 c b show ?thesis by auto
  qed
  have first: "\<forall>w1 w2. process_and_save data columns tokenize_func nlp output_filename w = Inr w1 \<and>
        process_and_save data' columns tokenize_func nlp' output_filename w' = Inr w2 \<longrightarrow>
        files w2 output_filename = files w1 output_filename \<and>
        (\<exists>counters master_df.
            compute_counters data columns tokenize_func nlp = Inr counters \<and>
            build_master_dataframe counters columns = Inr master_df \<and>
            files w1 output_filename = Some master_df)"
    using both [of _ w'] by blast
  have second: "\<forall>w1. process_and_save data columns tokenize_func nlp output_filename w = Inr w1 \<and>
        writable w' output_filename \<longrightarrow>
        (\<exists>w2. process_and_save data' columns tokenize_func nlp' output_filename w' = Inr w2)"
  proof (intro allI impI)
    fix w1
    assume a: "process_and_save data columns tokenize_func nlp output_filename w = Inr w1 \<and>
        writable w' output_filename"
    then have r1: "process_and_save data columns tokenize_func nlp output_filename w = Inr w1"
      and wr: "writable w' output_filename"
      by simp_all
    from process_and_save_Inr [OF r1] obtain counters master_df where
      c: "compute_counters data columns tokenize_func nlp = Inr counters" and
      b: "build_master_dataframe counters columns = Inr master_df"
      by blast
    from c cc have "compute_counters data' columns tokenize_func nlp' = Inr counters"
      by simp
    from process_and_save_runs [OF this b wr]
    show "\<exists>w2. process_and_save data' columns tokenize_func nlp' output_filename w' = Inr w2"
      by (rule exI)
  qed
  have third: "\<forall>e. process_and_save data columns tokenize_func nlp output_filename w = Inl e \<and>
        writable w output_filename \<longrightarrow>
        process_and_save data' columns tokenize_func nlp' output_filename w' = Inl e"
  proof (intro allI impI)
    fix e
    assume a: "process_and_save data columns tokenize_func nlp output_filename w = Inl e \<and>
        writable w output_filename"
    then have "compute_counters data columns tokenize_func nlp = Inl e \<or>
      (\<exists>counters. compute_counters data columns tokenize_func nlp = Inr counters \<and>
        build_master_dataframe counters columns = Inl e)"
      using process_and_save_Inl [of data columns tokenize_func nlp output_filename w e]
      by blast
    then have "compute_counters data' columns tokenize_func nlp' = Inl e \<or>
      (\<exists>counters. compute_counters data' columns tokenize_func nlp' = Inr counters \<and>
        build_master_dataframe counters columns = Inl e)"
      by (simp only: cc)
    then show "process_and_save data' columns tokenize_func nlp' output_filename w' = Inl e"
      by (rule process_and_save_fails)
  qed
  have fourth: "\<forall>w1 w2. process_and_save data columns tokenize_func nlp output_filename w = Inr w1 \<and>
        process_and_save data' columns tokenize_func nlp' output_filename w1 = Inr w2 \<longrightarrow>
        files w2 = files w1"
  proof (intro allI impI)
    fix w1 w2
    assume a: "process_and_save data columns tokenize_func nlp output_filename w = Inr w1 \<and>
        process_and_save data' columns tokenize_func nlp' output_filename w1 = Inr w2"
    then have r1: "process_and_save data columns tokenize_func nlp output_filename w = Inr w1"
      and r2: "process_and_save data' columns tokenize_func nlp' output_filename w1 = Inr w2"
      by simp_all
    from both [OF r1 r2] obtain master_df where
      "files w1 output_filename = Some master_df"
      "files w2 = (files w1)(output_filename \<mapsto> the (files w1 output_filename))"
      by blast
    then show "files w2 = files w1"
      by (simp add: map_upd_triv)
  qed
  from first second third fourth show ?thesis
    by (intro conjI)
qed

theorem process_and_save_reproducible_witness:
  "\<exists>w1 w2.
     process_and_save example_data [''c1'', ''c2''] tokenize_adjective_cell word_nlp
       ''adjectives_frequencies.csv'' empty_world = Inr w1 \<and>
     process_and_save example_data_stamped [''c1'', ''c2''] tokenize_adjective_cell three_word_nlp
       ''adjectives_frequencies.csv'' w1 = Inr w2 \<and>
     files w2 = files w1 \<and>
     files w1 ''adjectives_frequencies.csv'' =
       Some [(''c1_Word'', StrCol [''happy'', ''sad'']), (''c1_Frequency'', IntCol [2, 1]),
             (''c2_Word'', StrCol [''happy'', '''']), (''c2_Frequency'', IntCol [1, 0]),
             (''Overall_Word'', StrCol [''happy'', ''sad'']),
             (''Overall_Frequency'', IntCol [3, 1])]"
proof -
  let ?out = "''adjectives_frequencies.csv''"
  let ?table = "[(''c1_Word'', StrCol [''happy'', ''sad'']), (''c1_Frequency'', IntCol [2, 1]),
             (''c2_Word'', StrCol [''happy'', '''']), (''c2_Frequency'', IntCol [1, 0]),
             (''Overall_Word'', StrCol [''happy'', ''sad'']),
             (''Overall_Frequency'', IntCol [3, 1])]"
  let ?w1 = "print_line (''Saved: '' @ ?out) (empty_world\<lparr>files := (files empty_world)(?out \<mapsto> ?table)\<rparr>)"
  have cells: "list_all2 (\<lambda>row row'. \<forall>col\<in>set [''c1'', ''c2'']. row col = row' col)
      example_data example_data_stamped"
    by (simp add: example_data_def example_data_stamped_def)
  have answers: "\<forall>row\<in>set example_data. \<forall>col\<in>set [''c1'', ''c2'']. \<forall>cell.
      row col = Some (Text cell) \<longrightarrow>
      tokenize_adjective_cell cell three_word_nlp = tokenize_adjective_cell cell word_nlp"
  proof -
    have "tokenize_adjective_cell cell three_word_nlp = tokenize_adjective_cell cell word_nlp"
      if "cell = ''happy, happy'' \<or> cell = ''sad'' \<or> cell = ''happy''" for cell
      using that
      by (intro tokenize_adjective_cell_cong)
        (auto simp: candidates_of_def strip_def isspace_def three_word_nlp_def)
    then show ?thesis
      by (simp add: example_data_def)
  qed
  note main = process_and_save_reproducible [OF cells answers, of ?out empty_world ?w1]
  have "writable empty_world ?out"
    by (simp add: empty_world_def)
  from process_and_save_runs [OF example_compute_counters example_table this]
  have r1: "process_and_save example_data [''c1'', ''c2''] tokenize_adjective_cell word_nlp
       ?out empty_world = Inr ?w1" .
  have wr: "writable ?w1 ?out"
    by (simp add: print_line_def empty_world_def)
  from main r1 wr obtain w2 where
    r2: "process_and_save example_data_stamped [''c1'', ''c2''] tokenize_adjective_cell
       three_word_nlp ?out ?w1 = Inr w2"
    by blast
  from main r1 r2 have same: "files w2 = files ?w1"
    by blast
  have f1: "files ?w1 ?out = Some ?table"
    by (simp add: files_print_line)
  from r1 r2 same f1 show ?thesis
    by blast
qed

section \<open>Empty tokens\<close>

lemma lower_nonempty: "(lower s = []) = (s = [])" "([] = lower s) = (s = [])"
  by (auto simp: lower_def)

lemma tokenize_description_nonempty:
  assumes "nonempty_model nlp" and "tokenize_description text nlp = Inr tokens"
  shows "[] \<notin> set tokens"
proof -
  from assms(2) obtain doc where d: "nlp text = Inr doc" and
    t: "tokens = [lower (token_lemma t). t \<leftarrow> concat (sents doc),
                   \<not> (is_punct t \<or> is_space t \<or> is_stop t)]"
    by (auto simp: tokenize_description_def description_doc_loop_eq split: sum.splits)
  from assms(1) d have
    "\<forall>t\<in>set (concat (sents doc)). \<not> is_punct t \<and> \<not> is_stop t \<longrightarrow> token_lemma t \<noteq> []"
    unfolding nonempty_model_def by blast
  then show ?thesis
    unfolding t by (auto simp: lower_nonempty split: if_splits)
qed

lemma first_error_or_all_Inr:
  "first_error_or_all results = Inr xs \<Longrightarrow> results = map Inr xs"
proof (induction results arbitrary: xs)
  case Nil
  then show ?case by simp
next
  case (Cons r results)
  then show ?case
    by (cases r) (auto split: sum.splits)
qed

lemma tokenize_adjective_cell_nonempty:
  assumes "nonempty_model nlp" and "tokenize_adjective_cell cell nlp = Inr tokens"
  shows "[] \<notin> set tokens"
proof -
  let ?cands = "candidates_of cell"
  from assms(2) obtain docs where d: "first_error_or_all (map nlp ?cands) = Inr docs" and
    t: "tokens = concat (map (\<lambda>doc. [lower (token_lemma t). t \<leftarrow> concat (sents doc),
                 token_pos t = ''ADJ'' \<and> \<not> is_stop t \<and> \<not> is_punct t]) docs)"
    by (auto simp: tokenize_adjective_cell_def adjective_cand_loop_eq split: sum.splits)
  from first_error_or_all_Inr [OF d] have m: "map nlp ?cands = map Inr docs" .
  have "\<exists>s. nlp s = Inr doc" if "doc \<in> set docs" for doc
  proof -
    from that have "Inr doc \<in> set (map nlp ?cands)"
      unfolding m by simp
    then show ?thesis by auto
  qed
  with assms(1) have
    "\<forall>doc\<in>set docs. \<forall>t\<in>set (concat (sents doc)).
        \<not> is_punct t \<and> \<not> is_stop t \<longrightarrow> token_lemma t \<noteq> []"
    unfolding nonempty_model_def by blast
  then show ?thesis
    unfolding t by (auto simp: lower_nonempty split: if_splits)
qed

lemma tokenize_named_entities_nonempty:
  assumes "nonempty_model nlp" and "tokenize_named_entities text nlp = Inr tokens"
  shows "[] \<notin> set tokens"
proof -
  from assms(2) obtain doc where d: "nlp text = Inr doc" and
    t: "tokens = map span_text (ents doc)"
    by (auto simp: tokenize_named_entities_def split: sum.splits)
  from assms(1) d have "\<forall>e\<in>set (ents doc). span_text e \<noteq> []"
    unfolding nonempty_model_def by blast
  then show ?thesis
    unfolding t by auto
qed

lemma row_loop_keys:
  "row_loop tf nlp row columns counters = Inr counters' \<Longrightarrow>
   \<forall>cell tokens. tf cell nlp = Inr tokens \<longrightarrow> set tokens \<subseteq> K \<Longrightarrow>
   \<forall>col c. counters col = Some c \<longrightarrow> fst ` set c \<subseteq> K \<Longrightarrow>
   \<forall>col c. counters' col = Some c \<longrightarrow> fst ` set c \<subseteq> K"
proof (induction columns arbitrary: counters)
  case Nil
  then show ?case by simp
next
  case (Cons col columns)
  show ?case
  proof (cases "row col")
    case None
    with Cons.prems show ?thesis by simp
  next
    case (Some cell)
    show ?thesis
    proof (cases cell)
      case Missing
      with Some Cons.prems(1) have "row_loop tf nlp row columns counters = Inr counters'"
        by simp
      from Cons.IH [OF this Cons.prems(2,3)] show ?thesis .
    next
      case (Text s)
      with Some Cons.prems(1) obtain tokens c where
        t: "tf s nlp = Inr tokens" and c: "counters col = Some c" and
        r: "row_loop tf nlp row columns (counters(col \<mapsto> counter_update_tokens c tokens))
              = Inr counters'"
        by (auto split: sum.splits option.splits)
      from Cons.prems(2) t have "set tokens \<subseteq> K" by blast
      moreover from Cons.prems(3) c have "fst ` set c \<subseteq> K" by blast
      ultimately have "fst ` set (counter_update_tokens c tokens) \<subseteq> K"
        by (simp add: counter_update_tokens_keys)
      with Cons.prems(3) have
        "\<forall>col' c'. (counters(col \<mapsto> counter_update_tokens c tokens)) col' = Some c' \<longrightarrow>
           fst ` set c' \<subseteq> K"
        by auto
      from Cons.IH [OF r Cons.prems(2) this] show ?thesis .
    qed
  qed
qed

lemma data_loop_keys:
  "data_loop tf nlp data columns counters = Inr counters' \<Longrightarrow>
   \<forall>cell tokens. tf cell nlp = Inr tokens \<longrightarrow> set tokens \<subseteq> K \<Longrightarrow>
   \<forall>col c. counters col = Some c \<longrightarrow> fst ` set c \<subseteq> K \<Longrightarrow>
   \<forall>col c. counters' col = Some c \<longrightarrow> fst ` set c \<subseteq> K"
proof (induction data arbitrary: counters)
  case Nil
  then show ?case by simp
next
  case (Cons row data)
  from Cons.prems(1) obtain mid where
    m: "row_loop tf nlp row columns counters = Inr mid" and
    d: "data_loop tf nlp data columns mid = Inr counters'"
    by (auto split: sum.splits)
  from Cons.IH [OF d Cons.prems(2) row_loop_keys [OF m Cons.prems(2,3)]] show ?case .
qed

lemma compute_counters_keys:
  assumes "compute_counters data columns tf nlp = Inr counters"
    and "\<forall>cell tokens. tf cell nlp = Inr tokens \<longrightarrow> set tokens \<subseteq> K"
    and "counters col = Some c"
  shows "fst ` set c \<subseteq> K"
proof -
  have "\<forall>col c. init_counters columns col = Some c \<longrightarrow> fst ` set c \<subseteq> K"
    by (auto simp: init_counters_apply split: if_splits)
  from data_loop_keys [OF assms(1) [unfolded compute_counters_def] assms(2) this] assms(3)
  show ?thesis by blast
qed

lemma counter_update_mapping_keys:
  "fst ` set (counter_update_mapping c items) = fst ` set c \<union> fst ` set items"
proof (induction items arbitrary: c)
  case Nil
  show ?case by simp
next
  case (Cons p items)
  obtain k n where p: "p = (k, n)" by (cases p)
  show ?case
    unfolding p by (simp add: Cons.IH keys_dict_set)
qed

lemma counter_update_mapping_positive:
  "\<forall>(t, n)\<in>set c. 1 \<le> n \<Longrightarrow> \<forall>(t, n)\<in>set items. 1 \<le> n \<Longrightarrow>
   \<forall>(t, n)\<in>set (counter_update_mapping c items). 1 \<le> n"
proof (induction items arbitrary: c)
  case Nil
  then show ?case by simp
next
  case (Cons p items)
  obtain k n where p: "p = (k, n)" by (cases p)
  from Cons.prems(2) have n: "1 \<le> n" and rest: "\<forall>(t, n)\<in>set items. 1 \<le> n"
    by (auto simp: p)
  have "\<forall>(t, n')\<in>set (dict_set c k (n + counter_get c k)). 1 \<le> n'"
    using set_dict_set [of c k "n + counter_get c k"] Cons.prems(1) n
      counter_get_nonneg [OF Cons.prems(1), of k]
    by auto
  from Cons.IH [OF this rest] show ?case
    by (simp add: p)
qed

lemma rank_loop_overall_entries:
  "rank_loop counters columns (sd, ov, m) = Inr (sd', ov', m') \<Longrightarrow>
   \<forall>col\<in>set columns. \<forall>c. counters col = Some c \<longrightarrow>
      (\<forall>(t, n)\<in>set c. t \<in> K \<and> 1 \<le> n) \<Longrightarrow>
   \<forall>(t, n)\<in>set ov. t \<in> K \<and> 1 \<le> n \<Longrightarrow>
   \<forall>(t, n)\<in>set ov'. t \<in> K \<and> 1 \<le> n"
proof (induction columns arbitrary: sd ov m)
  case Nil
  then show ?case by simp
next
  case (Cons col columns)
  from Cons.prems(1) obtain c where c: "counters col = Some c"
    by (cases "counters col") auto
  from Cons.prems(1) c have step:
    "rank_loop counters columns
       (sd(col \<mapsto> get_sorted_list c), counter_update_mapping ov c,
        max m (length (get_sorted_list c))) = Inr (sd', ov', m')"
    by (simp add: Let_def)
  from Cons.prems(2) c have cc: "\<forall>(t, n)\<in>set c. t \<in> K \<and> 1 \<le> n" by simp
  have pos: "\<forall>(t, n)\<in>set (counter_update_mapping ov c). 1 \<le> n"
    using counter_update_mapping_positive [of ov c] cc Cons.prems(3) by fastforce
  have "fst ` set (counter_update_mapping ov c) \<subseteq> K"
    unfolding counter_update_mapping_keys using cc Cons.prems(3) by fastforce
  with pos have "\<forall>(t, n)\<in>set (counter_update_mapping ov c). t \<in> K \<and> 1 \<le> n"
    by fastforce
  from Cons.IH [OF step _ this] Cons.prems(2) show ?case by simp
qed

lemma build_master_dataframe_pairs:
  assumes b: "build_master_dataframe counters columns = Inr df"
  shows "\<exists>sd ov m n.
     rank_loop counters columns (Map.empty, [], 0) = Inr (sd, ov, m) \<and>
     (\<forall>col\<in>set columns. col \<noteq> ''Overall'' \<longrightarrow>
        map_of df (col @ ''_Word'') =
          Some (StrCol (right_pad n '''' (map fst (ranked_list counters col)))) \<and>
        map_of df (col @ ''_Frequency'') =
          Some (IntCol (right_pad n 0 (map snd (ranked_list counters col))))) \<and>
     map_of df ''Overall_Word'' =
       Some (StrCol (right_pad n '''' (map fst (get_sorted_list ov)))) \<and>
     map_of df ''Overall_Frequency'' =
       Some (IntCol (right_pad n 0 (map snd (get_sorted_list ov))))"
proof -
  from b obtain sd ov m where
    r: "rank_loop counters columns (Map.empty, [], 0) = Inr (sd, ov, m)"
    by (cases "rank_loop counters columns (Map.empty, [], 0)")
      (auto simp: build_master_dataframe_def)
  define n where
    "n = Max (set (map length (get_sorted_list ov # map (ranked_list counters) columns)))"
  let ?w = "StrCol (right_pad n '''' (map fst (get_sorted_list ov)))"
  let ?f = "IntCol (right_pad n 0 (map snd (get_sorted_list ov)))"
  from build_master_dataframe_result [OF r] obtain df' where
    f: "fill_loop sd columns n [] = Inr df'" and
    b': "build_master_dataframe counters columns =
          Inr (dict_set (dict_set df' ''Overall_Word'' ?w) ''Overall_Frequency'' ?f)" and
    sd: "\<forall>col\<in>set columns. sd col = Some (ranked_list counters col)"
    unfolding n_def by blast
  from b b' have df: "df = dict_set (dict_set df' ''Overall_Word'' ?w) ''Overall_Frequency'' ?f"
    by simp
  have cols: "map_of df (col @ ''_Word'') =
              Some (StrCol (right_pad n '''' (map fst (ranked_list counters col)))) \<and>
            map_of df (col @ ''_Frequency'') =
              Some (IntCol (right_pad n 0 (map snd (ranked_list counters col))))"
    if "col \<in> set columns" "col \<noteq> ''Overall''" for col
  proof -
    from sd that(1) have "sd col = Some (ranked_list counters col)" by simp
    from fill_loop_lookup [OF f that(1) this] header_Word_Overall [OF that(2)]
    show ?thesis unfolding df by (simp add: map_of_dict_set)
  qed
  then have cols': "\<forall>col\<in>set columns. col \<noteq> ''Overall'' \<longrightarrow>
        map_of df (col @ ''_Word'') =
          Some (StrCol (right_pad n '''' (map fst (ranked_list counters col)))) \<and>
        map_of df (col @ ''_Frequency'') =
          Some (IntCol (right_pad n 0 (map snd (ranked_list counters col))))"
    by (intro ballI impI)
  have overall: "map_of df ''Overall_Word'' = Some ?w" "map_of df ''Overall_Frequency'' = Some ?f"
    unfolding df by (simp_all add: map_of_dict_set)
  from r cols' overall show ?thesis
    by - (intro exI conjI; assumption)
qed

lemma tokenizers_nonempty:
  assumes "nonempty_model nlp"
    and "tokenize_func = tokenize_description \<or> tokenize_func = tokenize_adjective_cell \<or>
         tokenize_func = tokenize_named_entities"
    and "tokenize_func cell nlp = Inr tokens"
  shows "[] \<notin> set tokens"
  using assms tokenize_description_nonempty [of nlp cell tokens]
    tokenize_adjective_cell_nonempty [of nlp cell tokens]
    tokenize_named_entities_nonempty [of nlp cell tokens]
  by blast

text \<open>
  C8, as the code has it. The tokenizers emit the model's lemmas and entity texts as they
  are, so an empty token is excluded only by the model: when every token that is neither
  punctuation nor a stop word has a non-empty lemma and every entity a non-empty text,
  none of the three tokenizers emits the empty string, and in a table built from counters
  aggregated with one of them every word column is a ranked list of non-empty words with
  counts of at least 1, followed only by padding: an empty word stands only in the
  padding, beside the frequency 0.
\<close>

theorem empty_word_only_as_padding:
  assumes "nonempty_model nlp"
    and "tokenize_func = tokenize_description \<or> tokenize_func = tokenize_adjective_cell \<or>
         tokenize_func = tokenize_named_entities"
  shows "(\<forall>cell tokens. tokenize_func cell nlp = Inr tokens \<longrightarrow> [] \<notin> set tokens) \<and>
         (\<forall>data columns counters df.
            compute_counters data columns tokenize_func nlp = Inr counters \<and>
            build_master_dataframe counters columns = Inr df \<longrightarrow>
            (\<exists>n. \<forall>col. col \<in> set columns \<or> col = ''Overall'' \<longrightarrow>
               (\<exists>r. map_of df (col @ ''_Word'') = Some (StrCol (right_pad n '''' (map fst r))) \<and>
                    map_of df (col @ ''_Frequency'') = Some (IntCol (right_pad n 0 (map snd r))) \<and>
                    (\<forall>(t, k)\<in>set r. t \<noteq> [] \<and> 1 \<le> k))))"
proof (intro conjI allI impI)
  fix cell tokens
  assume "tokenize_func cell nlp = Inr tokens"
  from tokenizers_nonempty [OF assms this] show "[] \<notin> set tokens" .
next
  fix data columns counters df
  assume a: "compute_counters data columns tokenize_func nlp = Inr counters \<and>
            build_master_dataframe counters columns = Inr df"
  then have c: "compute_counters data columns tokenize_func nlp = Inr counters"
    and b: "build_master_dataframe counters columns = Inr df"
    by simp_all
  have tok: "\<forall>cell tokens. tokenize_func cell nlp = Inr tokens \<longrightarrow> set tokens \<subseteq> {t. t \<noteq> []}"
    using tokenizers_nonempty [OF assms] by fastforce
  have entries: "\<forall>(t, k)\<in>set cnt. t \<in> {t. t \<noteq> []} \<and> 1 \<le> k" if "counters col = Some cnt" for col cnt
  proof -
    from compute_counters_keys [OF c tok that] have "fst ` set cnt \<subseteq> {t. t \<noteq> []}" .
    moreover from compute_counters_ok [OF c] that have "\<forall>(t, k)\<in>set cnt. 1 \<le> k"
      by (simp add: counters_ok_def)
    ultimately show ?thesis by fastforce
  qed
  from build_master_dataframe_pairs [OF b] obtain sd ov m n where
    r: "rank_loop counters columns (Map.empty, [], 0) = Inr (sd, ov, m)" and
    cols: "\<forall>col\<in>set columns. col \<noteq> ''Overall'' \<longrightarrow>
        map_of df (col @ ''_Word'') =
          Some (StrCol (right_pad n '''' (map fst (ranked_list counters col)))) \<and>
        map_of df (col @ ''_Frequency'') =
          Some (IntCol (right_pad n 0 (map snd (ranked_list counters col))))" and
    ow: "map_of df ''Overall_Word'' =
       Some (StrCol (right_pad n '''' (map fst (get_sorted_list ov))))" and
    of': "map_of df ''Overall_Frequency'' =
       Some (IntCol (right_pad n 0 (map snd (get_sorted_list ov))))"
    by (elim exE conjE) (rule that)
  from entries have "\<forall>col\<in>set columns. \<forall>c. counters col = Some c \<longrightarrow>
      (\<forall>(t, n)\<in>set c. t \<in> {t. t \<noteq> []} \<and> 1 \<le> n)"
    by blast
  from rank_loop_overall_entries [OF r this] have
    ov: "\<forall>(t, k)\<in>set (get_sorted_list ov). t \<noteq> [] \<and> 1 \<le> k"
    by (simp add: set_get_sorted_list)
  have rl: "\<forall>(t, k)\<in>set (ranked_list counters col). t \<noteq> [] \<and> 1 \<le> k" for col
  proof (cases "counters col")
    case None
    then show ?thesis by (simp add: ranked_list_def)
  next
    case (Some cnt)
    with entries [OF Some] show ?thesis
      by (simp add: ranked_list_def set_get_sorted_list)
  qed
  have "\<exists>r. map_of df (col @ ''_Word'') = Some (StrCol (right_pad n '''' (map fst r))) \<and>
             map_of df (col @ ''_Frequency'') = Some (IntCol (right_pad n 0 (map snd r))) \<and>
             (\<forall>(t, k)\<in>set r. t \<noteq> [] \<and> 1 \<le> k)"
    if "col \<in> set columns \<or> col = ''Overall''" for col
  proof (cases "col = ''Overall''")
    case True
    with ow of' ov show ?thesis
      by (intro exI [of _ "get_sorted_list ov"]) simp
  next
    case False
    with that cols rl [of col] show ?thesis
      by (intro exI [of _ "ranked_list counters col"]) simp
  qed
  then show "\<exists>n. \<forall>col. col \<in> set columns \<or> col = ''Overall'' \<longrightarrow>
               (\<exists>r. map_of df (col @ ''_Word'') = Some (StrCol (right_pad n '''' (map fst r))) \<and>
                    map_of df (col @ ''_Frequency'') = Some (IntCol (right_pad n 0 (map snd r))) \<and>
                    (\<forall>(t, k)\<in>set r. t \<noteq> [] \<and> 1 \<le> k))"
    by (intro exI [of _ n] allI impI)
qed

text \<open>
  With a model that leaves the lemma of an ordinary token empty, the FullText tokenizer
  emits the empty string, the aggregator counts it, and the table has the empty word as
  a genuine entry of frequency 1.
\<close>

theorem empty_token_counterexample:
  "tokenize_description ''word'' empty_lemma_nlp = Inr [''''] \<and>
   compute_counters [[''c'' \<mapsto> Text ''word'']] [''c''] tokenize_description empty_lemma_nlp =
     Inr [''c'' \<mapsto> [('''', 1)]] \<and>
   build_master_dataframe [''c'' \<mapsto> [('''', 1)]] [''c''] =
     Inr [(''c_Word'', StrCol ['''']), (''c_Frequency'', IntCol [1]),
          (''Overall_Word'', StrCol ['''']), (''Overall_Frequency'', IntCol [1])]"
  by (simp add: tokenize_description_def empty_lemma_nlp_def lower_def compute_counters_def
      init_counters_def counter_get_def build_master_dataframe_def get_sorted_list_def
      py_sorted_def pad_loop_eq pd_DataFrame_def Let_def)

lemma word_nlp_nonempty: "nonempty_model word_nlp"
  by (auto simp: nonempty_model_def word_nlp_def split: if_splits)

lemma example_tokens:
  "tokenize_adjective_cell ''happy, happy'' word_nlp = Inr [''happy'', ''happy'']"
  by (simp add: tokenize_adjective_cell_def candidates_happy word_nlp_def lower_def
      lower_char_def isupper_def)

theorem empty_word_only_as_padding_witness:
  "(\<exists>tokens. tokenize_adjective_cell ''happy, happy'' word_nlp = Inr tokens \<and>
       [] \<notin> set tokens) \<and>
   (\<exists>df n r.
       compute_counters example_data [''c1'', ''c2''] tokenize_adjective_cell word_nlp =
         Inr [''c1'' \<mapsto> [(''happy'', 2), (''sad'', 1)], ''c2'' \<mapsto> [(''happy'', 1)]] \<and>
       build_master_dataframe
         [''c1'' \<mapsto> [(''happy'', 2), (''sad'', 1)], ''c2'' \<mapsto> [(''happy'', 1)]]
         [''c1'', ''c2''] = Inr df \<and>
       map_of df ''c2_Word'' = Some (StrCol (right_pad n '''' (map fst r))) \<and>
       map_of df ''c2_Frequency'' = Some (IntCol (right_pad n 0 (map snd r))) \<and>
       [] \<notin> fst ` set r)"
proof -
  let ?counters = "[''c1'' \<mapsto> [(''happy'', 2), (''sad'', 1)], ''c2'' \<mapsto> [(''happy'', 1)]]"
  let ?table = "[(''c1_Word'', StrCol [''happy'', ''sad'']), (''c1_Frequency'', IntCol [2, 1]),
        (''c2_Word'', StrCol [''happy'', '''']), (''c2_Frequency'', IntCol [1, 0]),
        (''Overall_Word'', StrCol [''happy'', ''sad'']), (''Overall_Frequency'', IntCol [3, 1])]"
  have tf: "tokenize_adjective_cell = tokenize_description \<or>
      tokenize_adjective_cell = tokenize_adjective_cell \<or>
      tokenize_adjective_cell = tokenize_named_entities"
    by simp
  note main = empty_word_only_as_padding [OF word_nlp_nonempty tf]
  from main example_tokens have 1: "[] \<notin> set [''happy'', ''happy'']"
    by blast
  from main have
    "compute_counters example_data [''c1'', ''c2''] tokenize_adjective_cell word_nlp =
       Inr ?counters \<and>
     build_master_dataframe ?counters [''c1'', ''c2''] = Inr ?table \<longrightarrow>
     (\<exists>n. \<forall>col. col \<in> set [''c1'', ''c2''] \<or> col = ''Overall'' \<longrightarrow>
        (\<exists>r. map_of ?table (col @ ''_Word'') = Some (StrCol (right_pad n '''' (map fst r))) \<and>
             map_of ?table (col @ ''_Frequency'') = Some (IntCol (right_pad n 0 (map snd r))) \<and>
             (\<forall>(t, k)\<in>set r. t \<noteq> [] \<and> 1 \<le> k)))"
    by (elim conjE allE)
  with example_compute_counters example_table obtain n where
    "\<forall>col. col \<in> set [''c1'', ''c2''] \<or> col = ''Overall'' \<longrightarrow>
        (\<exists>r. map_of ?table (col @ ''_Word'') = Some (StrCol (right_pad n '''' (map fst r))) \<and>
             map_of ?table (col @ ''_Frequency'') = Some (IntCol (right_pad n 0 (map snd r))) \<and>
             (\<forall>(t, k)\<in>set r. t \<noteq> [] \<and> 1 \<le> k))"
    by blast
  from this [rule_format, of "''c2''"] obtain r where
    "StrCol [''happy'', ''''] = StrCol (right_pad n '''' (map fst r))"
    "IntCol [1, 0] = IntCol (right_pad n 0 (map snd r))"
    "\<forall>(t, k)\<in>set r. t \<noteq> [] \<and> 1 \<le> k"
    by auto
  then have
    "map_of ?table ''c2_Word'' = Some (StrCol (right_pad n '''' (map fst r)))"
    "map_of ?table ''c2_Frequency'' = Some (IntCol (right_pad n 0 (map snd r)))"
    "[] \<notin> fst ` set r"
    by (simp_all, force)
  with example_compute_counters example_table have
    "\<exists>df n r.
       compute_counters example_data [''c1'', ''c2''] tokenize_adjective_cell word_nlp =
         Inr ?counters \<and>
       build_master_dataframe ?counters [''c1'', ''c2''] = Inr df \<and>
       map_of df ''c2_Word'' = Some (StrCol (right_pad n '''' (map fst r))) \<and>
       map_of df ''c2_Frequency'' = Some (IntCol (right_pad n 0 (map snd r))) \<and>
       [] \<notin> fst ` set r"
    by - (intro exI conjI; assumption)
  with 1 example_tokens show ?thesis by blast
qed

section \<open>When the pipeline returns\<close>

lemma row_loop_dom:
  "row_loop tf nlp row columns counters = Inr counters' \<Longrightarrow> dom counters' = dom counters"
proof (induction columns arbitrary: counters)
  case Nil
  then show ?case by simp
next
  case (Cons col columns)
  show ?case
  proof (cases "row col")
    case None
    with Cons.prems show ?thesis by simp
  next
    case (Some cell)
    show ?thesis
    proof (cases cell)
      case Missing
      with Some Cons show ?thesis by simp
    next
      case (Text s)
      with Some Cons.prems obtain tokens c where
        c: "counters col = Some c" and
        r: "row_loop tf nlp row columns (counters(col \<mapsto> counter_update_tokens c tokens))
              = Inr counters'"
        by (auto split: sum.splits option.splits)
      from c have "col \<in> dom counters" by (rule domI)
      then have "dom (counters(col \<mapsto> counter_update_tokens c tokens)) = dom counters"
        by (simp add: insert_absorb)
      with Cons.IH [OF r] show ?thesis by (simp only:)
    qed
  qed
qed

lemma data_loop_dom:
  "data_loop tf nlp data columns counters = Inr counters' \<Longrightarrow> dom counters' = dom counters"
proof (induction data arbitrary: counters)
  case Nil
  then show ?case by simp
next
  case (Cons row data)
  from Cons.prems obtain mid where
    m: "row_loop tf nlp row columns counters = Inr mid" and
    d: "data_loop tf nlp data columns mid = Inr counters'"
    by (auto split: sum.splits)
  from Cons.IH [OF d] row_loop_dom [OF m] show ?case by simp
qed

text \<open>The aggregator returns a counter for every designated column and for nothing else.\<close>

lemma compute_counters_dom:
  "compute_counters data columns tf nlp = Inr counters \<Longrightarrow> dom counters = set columns"
proof -
  assume "compute_counters data columns tf nlp = Inr counters"
  then have "dom counters = dom (init_counters columns)"
    unfolding compute_counters_def by (rule data_loop_dom)
  also have "\<dots> = set columns"
    by (auto simp: dom_def init_counters_apply)
  finally show ?thesis .
qed

text \<open>
  So the table builder never fails on the counters of the aggregator for the same
  columns: the pipeline raises only what the aggregator raises.
\<close>

lemma build_after_compute_counters:
  assumes "compute_counters data columns tf nlp = Inr counters"
  shows "\<exists>df. build_master_dataframe counters columns = Inr df"
proof -
  from compute_counters_dom [OF assms] have "\<forall>col\<in>set columns. counters col \<noteq> None"
    by auto
  from rank_loop_succeeds [OF this, of "(Map.empty, [], 0)"]
  obtain sd ov m where "rank_loop counters columns (Map.empty, [], 0) = Inr (sd, ov, m)"
    by (metis prod_cases3)
  from build_master_dataframe_result [OF this] show ?thesis by blast
qed

lemma row_loop_succeeds:
  assumes "set columns \<subseteq> dom counters"
    and "\<forall>col\<in>set columns. row col \<noteq> None"
    and "\<forall>col\<in>set columns. \<forall>s. row col = Some (Text s) \<longrightarrow> (\<exists>tokens. tf s nlp = Inr tokens)"
  shows "\<exists>counters'. row_loop tf nlp row columns counters = Inr counters'"
  using assms
proof (induction columns arbitrary: counters)
  case Nil
  show ?case by simp
next
  case (Cons col columns)
  from Cons.prems(2) obtain cell where cell: "row col = Some cell" by auto
  from Cons.prems have rest:
    "\<forall>col\<in>set columns. row col \<noteq> None"
    "\<forall>col\<in>set columns. \<forall>s. row col = Some (Text s) \<longrightarrow> (\<exists>tokens. tf s nlp = Inr tokens)"
    by simp_all
  show ?case
  proof (cases cell)
    case Missing
    from Cons.prems(1) have "set columns \<subseteq> dom counters" by simp
    from Cons.IH [OF this rest] cell Missing show ?thesis by simp
  next
    case (Text s)
    with cell Cons.prems(3) obtain tokens where t: "tf s nlp = Inr tokens" by auto
    from Cons.prems(1) obtain c where c: "counters col = Some c" by auto
    have step: "row_loop tf nlp row (col # columns) counters =
        row_loop tf nlp row columns (counters(col \<mapsto> counter_update_tokens c tokens))"
      using cell Text t c by simp
    from Cons.prems(1) have
      "set columns \<subseteq> dom (counters(col \<mapsto> counter_update_tokens c tokens))"
      by auto
    from Cons.IH [OF this rest] show ?thesis
      unfolding step .
  qed
qed

text \<open>
  The aggregator returns counters when every row has a cell, missing or not, for every
  designated column and the tokenizer raises nothing on the texts of these cells.
\<close>

lemma data_loop_succeeds:
  assumes "set columns \<subseteq> dom counters"
    and "\<forall>row\<in>set data. \<forall>col\<in>set columns. row col \<noteq> None"
    and "\<forall>row\<in>set data. \<forall>col\<in>set columns. \<forall>s. row col = Some (Text s) \<longrightarrow>
           (\<exists>tokens. tf s nlp = Inr tokens)"
  shows "\<exists>counters'. data_loop tf nlp data columns counters = Inr counters'"
  using assms
proof (induction data arbitrary: counters)
  case Nil
  show ?case by simp
next
  case (Cons row data)
  from Cons.prems have
    "\<forall>col\<in>set columns. row col \<noteq> None"
    "\<forall>col\<in>set columns. \<forall>s. row col = Some (Text s) \<longrightarrow> (\<exists>tokens. tf s nlp = Inr tokens)"
    by simp_all
  with Cons.prems(1) have "\<exists>mid. row_loop tf nlp row columns counters = Inr mid"
    by (rule row_loop_succeeds)
  then obtain mid where m: "row_loop tf nlp row columns counters = Inr mid"
    by blast
  from row_loop_dom [OF m] Cons.prems(1) have "set columns \<subseteq> dom mid" by simp
  moreover from Cons.prems have
    "\<forall>row\<in>set data. \<forall>col\<in>set columns. row col \<noteq> None"
    "\<forall>row\<in>set data. \<forall>col\<in>set columns. \<forall>s. row col = Some (Text s) \<longrightarrow>
           (\<exists>tokens. tf s nlp = Inr tokens)"
    by simp_all
  ultimately have "\<exists>counters'. data_loop tf nlp data columns mid = Inr counters'"
    by (rule Cons.IH)
  with m show ?case by simp
qed

lemma compute_counters_succeeds:
  assumes "\<forall>row\<in>set data. \<forall>col\<in>set columns. row col \<noteq> None"
    and "\<forall>row\<in>set data. \<forall>col\<in>set columns. \<forall>s. row col = Some (Text s) \<longrightarrow>
           (\<exists>tokens. tf s nlp = Inr tokens)"
  shows "\<exists>counters. compute_counters data columns tf nlp = Inr counters"
proof -
  have "set columns \<subseteq> dom (init_counters columns)"
    by (auto simp: dom_def init_counters_apply)
  then have "\<exists>counters. data_loop tf nlp data columns (init_counters columns) = Inr counters"
    using assms by (rule data_loop_succeeds)
  then show ?thesis
    by (simp add: compute_counters_def)
qed

end
